theory Spec2Isabelle
  imports Complex_Main
begin

section \<open>Numbers, errors and Python primitives\<close>

text \<open>
  The module computes with Python floats. The embedding idealises them as
  real numbers: every arithmetic operation is exact, so the properties below
  are those the algorithms have before rounding, which is what a statement
  made "up to floating-point tolerance" is about. Overflow of floats is not
  modelled. \<open>Decimal\<close> values are reals as well.

  Exceptions are values: a computation returns \<open>Inl e\<close> where the Python
  raises, and \<open>Inr v\<close> where it returns \<open>v\<close>.
\<close>

datatype error = ValueError | ZeroDivisionError | IndexError | TypeError

text \<open>\<open>math.log10\<close> raises \<open>ValueError\<close> outside the positive reals.\<close>

definition log10 :: "real \<Rightarrow> error + real" where
  "log10 x = (if 0 < x then Inr (log 10 x) else Inl ValueError)"

text \<open>\<open>exp10(x)\<close>, that is \<open>10 ** x\<close>.\<close>

definition exp10 :: "real \<Rightarrow> real" where
  "exp10 x = 10 powr x"

text \<open>Float division raises on a zero divisor.\<close>

definition py_div :: "real \<Rightarrow> real \<Rightarrow> error + real" where
  "py_div a b = (if b \<noteq> 0 then Inr (a / b) else Inl ZeroDivisionError)"

text \<open>
  \<open>a % b\<close> on numbers: the remainder has the sign of the divisor. Every use in
  the source is guarded by the truth value of the divisor, so it is never
  called with \<open>b = 0\<close>.
\<close>

definition py_mod :: "real \<Rightarrow> real \<Rightarrow> real" where
  "py_mod a b = a - b * of_int \<lfloor>a / b\<rfloor>"

text \<open>\<open>int(x)\<close> on a float truncates towards zero.\<close>

definition py_int :: "real \<Rightarrow> int" where
  "py_int x = (if 0 \<le> x then \<lfloor>x\<rfloor> else \<lceil>x\<rceil>)"

text \<open>\<open>xs[i] = v\<close> with a non-negative index raises \<open>IndexError\<close> past the end.\<close>

definition assign :: "'a list \<Rightarrow> nat \<Rightarrow> 'a \<Rightarrow> error + 'a list" where
  "assign xs i v = (if i < length xs then Inr (xs[i := v]) else Inl IndexError)"

text \<open>\<open>xs[i]\<close>: a negative index counts from the end.\<close>

definition item_py :: "'a list \<Rightarrow> int \<Rightarrow> error + 'a" where
  "item_py xs i =
     (if 0 \<le> i \<and> i < int (length xs) then Inr (xs ! nat i)
      else if i < 0 \<and> - int (length xs) \<le> i then Inr (xs ! nat (int (length xs) + i))
      else Inl IndexError)"

text \<open>\<open>[0] * n\<close>: a non-positive count gives the empty list.\<close>

definition zeros :: "int \<Rightarrow> real list" where
  "zeros n = replicate (nat n) 0"

text \<open>\<open>sorted(xs, reverse=r)\<close> on numbers.\<close>

definition sorted_py :: "real list \<Rightarrow> bool \<Rightarrow> real list" where
  "sorted_py xs r = (if r then rev (sort xs) else sort xs)"

text \<open>\<open>[log10(p) for p in ps]\<close>: the first failing element raises.\<close>

fun log10_all :: "real list \<Rightarrow> error + real list" where
  "log10_all [] = Inr []"
| "log10_all (p # ps) =
     (case log10 p of
        Inl e \<Rightarrow> Inl e
      | Inr q \<Rightarrow> (case log10_all ps of Inl e \<Rightarrow> Inl e | Inr qs \<Rightarrow> Inr (q # qs)))"

text \<open>A \<open>for\<close> loop over a list of indices, threading the state and stopping at an error.\<close>

fun for_loop :: "('s \<Rightarrow> nat \<Rightarrow> error + 's) \<Rightarrow> nat list \<Rightarrow> 's \<Rightarrow> error + 's" where
  "for_loop body [] st = Inr st"
| "for_loop body (m # ms) st =
     (case body st m of Inl e \<Rightarrow> Inl e | Inr st' \<Rightarrow> for_loop body ms st')"

section \<open>Tick generation: \<open>Graph._get_ticks\<close>\<close>

text \<open>
  A tick specification (\<open>x_ticks_major\<close>, \<open>x_ticks_minor\<close>) is a number or a
  list/tuple of positions.
\<close>

datatype ticks = Num real | Seq "real list"

fun is_seq :: "ticks \<Rightarrow> bool" where
  "is_seq (Seq ps) = True"
| "is_seq (Num v) = False"

text \<open>\<open>type(major)()\<close>: the empty sequence for a list or tuple, zero for a number.\<close>

fun type_default :: "ticks \<Rightarrow> ticks" where
  "type_default (Seq ps) = Seq []"
| "type_default (Num v) = Num 0"

text \<open>\<open>s_min <= p <= s_max or s_min >= p >= s_max\<close>\<close>

definition in_range :: "real \<Rightarrow> real \<Rightarrow> real \<Rightarrow> bool" where
  "in_range s_min s_max p \<longleftrightarrow> (s_min \<le> p \<and> p \<le> s_max) \<or> (s_min \<ge> p \<and> p \<ge> s_max)"

text \<open>
  The working lists and their fill positions, the source's \<open>k\<close> (position in
  \<open>points_major\<close>) and \<open>k2\<close> (position in \<open>points_minor\<close>).
\<close>

record tick_state =
  points_major :: "real list"
  points_minor :: "real list"
  k_major :: nat
  k_minor :: nat

definition put_major :: "tick_state \<Rightarrow> real \<Rightarrow> error + tick_state" where
  "put_major st v =
     (case assign (points_major st) (k_major st) v of
        Inl e \<Rightarrow> Inl e
      | Inr pm \<Rightarrow> Inr (st\<lparr>points_major := pm, k_major := k_major st + 1\<rparr>))"

definition put_minor :: "tick_state \<Rightarrow> real \<Rightarrow> error + tick_state" where
  "put_minor st v =
     (case assign (points_minor st) (k_minor st) v of
        Inl e \<Rightarrow> Inl e
      | Inr pm \<Rightarrow> Inr (st\<lparr>points_minor := pm, k_minor := k_minor st + 1\<rparr>))"

text \<open>The explicit-list branch (\<open>isinstance(major, (list, tuple))\<close>).\<close>

definition seq_ticks ::
  "real list \<Rightarrow> real list \<Rightarrow> bool \<Rightarrow> real \<Rightarrow> real \<Rightarrow> error + (real list \<times> real list)"
where
  "seq_ticks major minor lg s_min s_max =
     (let pmaj = filter (\<lambda>p. in_range s_min s_max p) major;
          pmin = filter (\<lambda>p. in_range s_min s_max p \<and> p \<notin> set pmaj) minor
      in if lg then
           (case log10_all pmaj of
              Inl e \<Rightarrow> Inl e
            | Inr lmaj \<Rightarrow>
                (case log10_all pmin of Inl e \<Rightarrow> Inl e | Inr lmin \<Rightarrow> Inr (lmaj, lmin)))
         else Inr (pmaj, pmin))"

text \<open>The body of the linear loop \<open>for m in range(0, n_ticks)\<close>.\<close>

definition linear_body :: "real \<Rightarrow> real \<Rightarrow> real \<Rightarrow> tick_state \<Rightarrow> nat \<Rightarrow> error + tick_state" where
  "linear_body minor tick_dist s_min st m =
     (if minor \<noteq> 0 \<and> py_mod (real m) minor \<noteq> 0
      then put_minor st (real m * tick_dist + s_min)
      else put_major st (real m * tick_dist + s_min))"

text \<open>The linear branch (\<open>not log and s_max != s_min\<close>), up to the two \<open>del\<close>.\<close>

definition linear_ticks :: "real \<Rightarrow> real \<Rightarrow> real \<Rightarrow> real \<Rightarrow> error + tick_state" where
  "linear_ticks major minor s_min s_max =
     (let tick_dist0 = major / (if minor \<noteq> 0 then minor else 1);
          n_ticks = \<lfloor>\<bar>(s_max - s_min) / tick_dist0\<bar>\<rfloor> + 1;
          tick_dist = \<bar>tick_dist0\<bar> * (if s_min < s_max then 1 else -1);
          pmaj = zeros (\<lfloor>\<bar>(s_max - s_min) / major\<bar>\<rfloor> + 1);
          pmin = zeros (n_ticks - int (length pmaj) + 1)
      in for_loop (linear_body minor tick_dist s_min) [0..<nat n_ticks]
           \<lparr>points_major = pmaj, points_minor = pmin, k_major = 0, k_minor = 0\<rparr>)"

text \<open>
  The state of the logarithmic \<open>while True\<close> loop: the lists, \<open>count\<close> and
  \<open>count_min\<close>.
\<close>

record log_state = tick_state +
  count :: nat
  count_min :: real

text \<open>
  One round of the \<open>while True\<close> loop of the logarithmic branch. The loop has no
  bound of its own, so it is a partial function: \<open>None\<close> is a run that never
  leaves the loop.
\<close>

partial_function (option) log_loop ::
  "real \<Rightarrow> real \<Rightarrow> real \<Rightarrow> real \<Rightarrow> real \<Rightarrow> log_state \<Rightarrow> (error + log_state) option"
where
  "log_loop minor decade_dist start_dec min_pos s_max st =
     (let pos_dec = start_dec + decade_dist * real (count st);
          pos_dec_low = \<lfloor>pos_dec\<rfloor>;
          diff = pos_dec - of_int pos_dec_low;
          zero = (\<bar>diff\<bar> < 0.001 * decade_dist)
      in case (if zero then Inr (of_int pos_dec_low)
               else log10 ((pos_dec - of_int pos_dec_low) * exp10 (of_int \<lceil>pos_dec\<rceil>))) of
           Inl e \<Rightarrow> Some (Inl e)
         | Inr pos_log \<Rightarrow>
             if pos_log > s_max then Some (Inr st)
             else
               (let st1 = st\<lparr>count := count st + 1\<rparr> in
                case (if zero \<or> diff \<ge> min_pos then
                        (if minor \<noteq> 0 \<and> py_mod (count_min st1) minor = 0
                         then (case assign (points_major st1) (k_major st1) pos_log of
                                 Inl e \<Rightarrow> Inl e
                               | Inr pm \<Rightarrow> Inr (st1\<lparr>points_major := pm, k_major := k_major st1 + 1\<rparr>))
                         else (case assign (points_minor st1) (k_minor st1) pos_log of
                                 Inl e \<Rightarrow> Inl e
                               | Inr pm \<Rightarrow> Inr (st1\<lparr>points_minor := pm, k_minor := k_minor st1 + 1\<rparr>)))
                      else Inr st1) of
                  Inl e \<Rightarrow> Some (Inl e)
                | Inr st2 \<Rightarrow>
                    log_loop minor decade_dist start_dec min_pos s_max
                      (st2\<lparr>count_min := count_min st2 + 1\<rparr>)))"

text \<open>
  The logarithmic branch (\<open>log and s_max > s_min\<close>). It rebinds \<open>s_min\<close> and
  \<open>s_max\<close> to their logarithms, which the final \<open>sorted\<close> then compares, so the
  pair is returned with the state.
\<close>

definition log_ticks ::
  "real \<Rightarrow> real \<Rightarrow> real \<Rightarrow> real \<Rightarrow> (error + (log_state \<times> real \<times> real)) option"
where
  "log_ticks major minor s_min0 s_max0 =
     (case log10 s_min0 of
        Inl e \<Rightarrow> Some (Inl e)
      | Inr s_min \<Rightarrow>
     (case log10 s_max0 of
        Inl e \<Rightarrow> Some (Inl e)
      | Inr s_max \<Rightarrow>
     (let n_decades0 = \<lfloor>s_max - s_min\<rfloor>;
          n_decades =
            (if \<lfloor>s_min + of_int n_decades0\<rfloor> \<noteq> \<lfloor>s_max\<rfloor>
             then of_int n_decades0 + (1 - (exp10 (s_min + of_int n_decades0 + 1) - exp10 s_max)
                                            / exp10 (of_int \<lfloor>s_max + 1\<rfloor>))
             else of_int n_decades0 + (exp10 s_max - exp10 (s_min + of_int n_decades0))
                                        / exp10 (of_int \<lfloor>s_max + 1\<rfloor>));
          n_ticks_major = n_decades / major;
          n_ticks = \<lfloor>n_ticks_major * (if minor \<ge> 1 then minor else 1)\<rfloor> + 2;
          decade_dist = major / (if minor \<noteq> 0 then minor else 1);
          min_pos = 0.1 - 0.00001 * decade_dist;
          s_min_low = \<lfloor>s_min\<rfloor>;
          start_dec0 = of_int \<lceil>exp10 (s_min - of_int s_min_low - 1) / decade_dist\<rceil> * decade_dist;
          cmin = (if minor = 0 then 0 else py_mod (of_int \<lfloor>start_dec0 / decade_dist\<rfloor>) minor);
          start_dec = start_dec0 + of_int s_min_low
      in case log_loop minor decade_dist start_dec min_pos s_max
                \<lparr>points_major = zeros n_ticks, points_minor = zeros n_ticks,
                 k_major = 0, k_minor = 0, count = 0, count_min = cmin\<rparr> of
           None \<Rightarrow> None
         | Some (Inl e) \<Rightarrow> Some (Inl e)
         | Some (Inr st) \<Rightarrow> Some (Inr (st, s_min, s_max)))))"

text \<open>
  The numeric branch (\<open>elif major > 0\<close>): \<open>minor = max(minor, 0)\<close>, one of the
  three sub-branches, then \<open>del points_major[k:]\<close> and \<open>del points_minor[k2:]\<close>.
  The third sub-branch only sets \<open>k = k2 = 1\<close> on the two empty lists.
\<close>

definition num_ticks ::
  "real \<Rightarrow> real \<Rightarrow> bool \<Rightarrow> real \<Rightarrow> real \<Rightarrow> (error + (real list \<times> real list \<times> real \<times> real)) option"
where
  "num_ticks major minor0 lg s_min s_max =
     (let minor = max minor0 0 in
      if lg \<and> s_max > s_min then
        (case log_ticks major minor s_min s_max of
           None \<Rightarrow> None
         | Some (Inl e) \<Rightarrow> Some (Inl e)
         | Some (Inr (st, l_min, l_max)) \<Rightarrow>
             Some (Inr (take (k_major st) (points_major st), take (k_minor st) (points_minor st),
                        l_min, l_max)))
      else if \<not> lg \<and> s_max \<noteq> s_min then
        (case linear_ticks major minor s_min s_max of
           Inl e \<Rightarrow> Some (Inl e)
         | Inr st \<Rightarrow>
             Some (Inr (take (k_major st) (points_major st), take (k_minor st) (points_minor st),
                        s_min, s_max)))
      else Some (Inr (take 1 [], take 1 [], s_min, s_max)))"

text \<open>
  \<open>_get_ticks(major, minor, log, s_min, s_max)\<close>. A number where the source
  iterates or compares a sequence (unreachable after the first statement, which
  makes \<open>minor\<close> of the kind of \<open>major\<close>) is the \<open>TypeError\<close> Python would raise.
\<close>

definition get_ticks ::
  "ticks \<Rightarrow> ticks \<Rightarrow> bool \<Rightarrow> real \<Rightarrow> real \<Rightarrow> (error + (real list \<times> real list)) option"
where
  "get_ticks major minor0 lg s_min s_max =
     (let minor = (if is_seq major \<noteq> is_seq minor0 then type_default major else minor0) in
      case major of
        Seq ps \<Rightarrow>
          (case minor of
             Num v \<Rightarrow> Some (Inl TypeError)
           | Seq qs \<Rightarrow>
               (case seq_ticks ps qs lg s_min s_max of
                  Inl e \<Rightarrow> Some (Inl e)
                | Inr (pmaj, pmin) \<Rightarrow>
                    Some (Inr (sorted_py pmaj (s_min > s_max), sorted_py pmin (s_min > s_max)))))
      | Num mj \<Rightarrow>
          if mj > 0 then
            (case minor of
               Seq qs \<Rightarrow> Some (Inl TypeError)
             | Num mn \<Rightarrow>
                 (case num_ticks mj mn lg s_min s_max of
                    None \<Rightarrow> None
                  | Some (Inl e) \<Rightarrow> Some (Inl e)
                  | Some (Inr (pmaj, pmin, a, b)) \<Rightarrow>
                      Some (Inr (sorted_py pmaj (a > b), sorted_py pmin (a > b)))))
          else Some (Inr (sorted_py [] (s_min > s_max), sorted_py [] (s_min > s_max))))"

section \<open>Axis transforms: \<open>Plot.x_px\<close>, \<open>Plot.y_px\<close>, \<open>Plot.unproject\<close>\<close>

text \<open>
  The bounding box \<open>size = (x0, y0, x1, y1)\<close> in which plots are drawn, and the
  \<open>params\<close> dictionary of a plot (keys \<open>xlog\<close>, \<open>xmin\<close>, \<open>xmax\<close>, \<open>ylog\<close>,
  \<open>ymin\<close>, \<open>ymax\<close>, \<open>size\<close>).
\<close>

type_synonym box = "real \<times> real \<times> real \<times> real"

record params =
  p_xlog :: bool
  p_xmin :: real
  p_xmax :: real
  p_ylog :: bool
  p_ymin :: real
  p_ymax :: real
  p_size :: box

definition funcx :: "params \<Rightarrow> real \<Rightarrow> error + real" where
  "funcx p v = (if p_xlog p then log10 v else Inr v)"

definition funcy :: "params \<Rightarrow> real \<Rightarrow> error + real" where
  "funcy p v = (if p_ylog p then log10 v else Inr v)"

text \<open>
  \<open>x_px()\<close> evaluates the two bounds, which may raise, and returns a closure,
  which may raise on its argument.
\<close>

definition x_px :: "params \<Rightarrow> error + (real \<Rightarrow> error + real)" where
  "x_px p =
     (case p_size p of (s0, s1, s2, s3) \<Rightarrow>
        (case funcx p (p_xmin p) of
           Inl e \<Rightarrow> Inl e
         | Inr xmin \<Rightarrow>
        (case funcx p (p_xmax p) of
           Inl e \<Rightarrow> Inl e
         | Inr xmax \<Rightarrow>
             (let xrange = xmax - xmin;
                  ratiox = (if xrange \<noteq> 0 then (s2 - s0) / xrange else 0)
              in Inr (\<lambda>x. case funcx p x of
                             Inl e \<Rightarrow> Inl e
                           | Inr fx \<Rightarrow> Inr ((fx - xmin) * ratiox + s0))))))"

definition y_px :: "params \<Rightarrow> error + (real \<Rightarrow> error + real)" where
  "y_px p =
     (case p_size p of (s0, s1, s2, s3) \<Rightarrow>
        (case funcy p (p_ymin p) of
           Inl e \<Rightarrow> Inl e
         | Inr ymin \<Rightarrow>
        (case funcy p (p_ymax p) of
           Inl e \<Rightarrow> Inl e
         | Inr ymax \<Rightarrow>
             (let yrange = ymax - ymin;
                  ratioy = (if yrange \<noteq> 0 then (s3 - s1) / yrange else 0)
              in Inr (\<lambda>y. case funcy p y of
                             Inl e \<Rightarrow> Inl e
                           | Inr fy \<Rightarrow> Inr ((fy - ymin) * ratioy + s1))))))"

definition unproject :: "params \<Rightarrow> real \<Rightarrow> real \<Rightarrow> error + (real \<times> real)" where
  "unproject p x y =
     (case p_size p of (s0, s1, s2, s3) \<Rightarrow>
        (let xrange = p_xmax p - p_xmin p;
             ratiox = (if xrange \<noteq> 0 then (s2 - s0) / xrange else 0);
             yrange = p_ymax p - p_ymin p;
             ratioy = (if yrange \<noteq> 0 then (s3 - s1) / yrange else 0)
         in case py_div (x - s0) ratiox of
              Inl e \<Rightarrow> Inl e
            | Inr qx \<Rightarrow>
                (case py_div (y - s1) ratioy of
                   Inl e \<Rightarrow> Inl e
                 | Inr qy \<Rightarrow> Inr (qx + p_xmin p, qy + p_ymin p))))"

section \<open>The graph widget: labels, \<open>Graph.to_data\<close>, \<open>Graph._update_labels\<close>\<close>

text \<open>
  A label widget, as far as the layout reads and writes it: its text, the size of
  its rendered texture, its size and its position. Rendering belongs to the
  toolkit: \<open>texture_update()\<close> is a parameter \<open>text_size\<close> giving the texture size of a
  text.
\<close>

record label =
  l_text :: string
  l_texture_size :: "real \<times> real"
  l_size :: "real \<times> real"
  l_pos :: "real \<times> real"
  l_angle :: real

definition texture_update :: "(string \<Rightarrow> real \<times> real) \<Rightarrow> label \<Rightarrow> label" where
  "texture_update text_size l = l\<lparr>l_texture_size := text_size (l_text l)\<rparr>"

definition l_width :: "label \<Rightarrow> real" where "l_width l = fst (l_size l)"
definition l_height :: "label \<Rightarrow> real" where "l_height l = snd (l_size l)"
definition l_x :: "label \<Rightarrow> real" where "l_x l = fst (l_pos l)"
definition l_y :: "label \<Rightarrow> real" where "l_y l = snd (l_pos l)"
definition l_top :: "label \<Rightarrow> real" where "l_top l = l_y l + l_height l"
definition l_right :: "label \<Rightarrow> real" where "l_right l = l_x l + l_width l"

text \<open>
  \<open>x_grid_label\<close> / \<open>y_grid_label\<close>: a boolean, a callable, or a sequence of
  strings.
\<close>

datatype grid_label = GBool bool | GCall "real \<Rightarrow> string" | GSeq "string list"

fun truthy :: "grid_label \<Rightarrow> bool" where
  "truthy (GBool b) = b"
| "truthy (GCall f) = True"
| "truthy (GSeq ss) = (ss \<noteq> [])"

text \<open>
  The fields of \<open>Graph\<close> that the modelled methods use. \<open>g_xlabel\<close> is the
  property \<open>xlabel\<close> (the title), \<open>g_xlabel_w\<close> the widget \<open>_xlabel\<close> (\<open>None\<close> when
  absent); \<open>g_x_grid_labels\<close> is the list \<open>_x_grid_label\<close> of tick label widgets
  and \<open>g_x_grid_label\<close> the property \<open>x_grid_label\<close>. \<open>g_plot_area_pos\<close> and
  \<open>g_plot_area_size\<close> are \<open>_plot_area.pos\<close> and \<open>_plot_area.size\<close>.
\<close>

record graph =
  g_x :: real
  g_y :: real
  g_width :: real
  g_height :: real
  g_padding :: real
  g_xlabel :: string
  g_ylabel :: string
  g_xlabel_w :: "label option"
  g_ylabel_w :: "label option"
  g_ticks_majorx :: "real list"
  g_ticks_majory :: "real list"
  g_x_grid_labels :: "label list"
  g_y_grid_labels :: "label list"
  g_x_grid_label :: grid_label
  g_y_grid_label :: grid_label
  g_xlog :: bool
  g_xmin :: real
  g_xmax :: real
  g_ylog :: bool
  g_ymin :: real
  g_ymax :: real
  g_plot_area_pos :: "real \<times> real"
  g_plot_area_size :: "real \<times> real"
  g_view_pos :: "real \<times> real"
  g_view_size :: "real \<times> real"

text \<open>\<open>Graph.to_data(x, y)\<close>: both divisions come before the logarithms.\<close>

definition to_data :: "graph \<Rightarrow> real \<Rightarrow> real \<Rightarrow> error + (real \<times> real)" where
  "to_data g x y =
     (let adj_x = x - fst (g_plot_area_pos g);
          adj_y = y - snd (g_plot_area_pos g)
      in case py_div adj_x (fst (g_plot_area_size g)) of
           Inl e \<Rightarrow> Inl e
         | Inr norm_x \<Rightarrow>
        (case py_div adj_y (snd (g_plot_area_size g)) of
           Inl e \<Rightarrow> Inl e
         | Inr norm_y \<Rightarrow>
        (case (if g_xlog g then
                 (case log10 (g_xmin g) of
                    Inl e \<Rightarrow> Inl e
                  | Inr xmin \<Rightarrow>
                      (case log10 (g_xmax g) of
                         Inl e \<Rightarrow> Inl e
                       | Inr xmax \<Rightarrow> Inr (exp10 (norm_x * (xmax - xmin) + xmin))))
               else Inr (norm_x * (g_xmax g - g_xmin g) + g_xmin g)) of
           Inl e \<Rightarrow> Inl e
         | Inr conv_x \<Rightarrow>
        (case (if g_ylog g then
                 (case log10 (g_ymin g) of
                    Inl e \<Rightarrow> Inl e
                  | Inr ymin \<Rightarrow>
                      (case log10 (g_ymax g) of
                         Inl e \<Rightarrow> Inl e
                       | Inr ymax \<Rightarrow> Inr (exp10 (norm_y * (ymax - ymin) + ymin))))
               else Inr (norm_y * (g_ymax g - g_ymin g) + g_ymin g)) of
           Inl e \<Rightarrow> Inl e
         | Inr conv_y \<Rightarrow> Inr (conv_x, conv_y)))))"

text \<open>
  What \<open>_redraw_size\<close> does with the box \<open>size\<close> that \<open>_update_labels\<close> returned:
  it places the plot area (\<open>set_plot_area\<close>) and hands every plot its parameters
  (\<open>_update_plots\<close>, \<open>Plot.update\<close>; \<open>plot_params\<close> is the dictionary of a plot
  on the primary axes, \<open>get_x_axis(0)\<close> and \<open>get_y_axis(0)\<close>).
\<close>

definition set_plot_area :: "graph \<Rightarrow> box \<Rightarrow> graph" where
  "set_plot_area g sz =
     (case sz of (s0, s1, s2, s3) \<Rightarrow>
        g\<lparr>g_plot_area_pos := (s0, s1), g_view_pos := (s0, s1),
          g_plot_area_size := (s2 - s0, s3 - s1), g_view_size := (s2 - s0, s3 - s1)\<rparr>)"

definition plot_params :: "graph \<Rightarrow> box \<Rightarrow> params" where
  "plot_params g sz =
     \<lparr>p_xlog = g_xlog g, p_xmin = g_xmin g, p_xmax = g_xmax g,
      p_ylog = g_ylog g, p_ymin = g_ymin g, p_ymax = g_ymax g, p_size = sz\<rparr>"

text \<open>
  \<open>Graph._update_labels\<close>. The running values \<open>x_next\<close>, \<open>y_next\<close>, \<open>xextent\<close>,
  \<open>yextent\<close> and the two overlap flags are a record; the label widgets are
  updated in the graph. Where the Python raises, the model returns the error
  only (the widgets as the exception left them are not modelled). The default
  label text \<open>precision % value\<close> is a parameter \<open>fmt\<close>.
\<close>

record layout =
  x_next :: real
  y_next :: real
  xextent :: real
  yextent :: real
  x_overlap :: bool
  y_overlap :: bool

definition funcexp :: "bool \<Rightarrow> real \<Rightarrow> real" where
  "funcexp lg v = (if lg then exp10 v else v)"

definition funclog :: "bool \<Rightarrow> real \<Rightarrow> error + real" where
  "funclog lg v = (if lg then log10 v else Inr v)"

text \<open>The local function \<open>get_text\<close>, chosen by the kind of the grid label property.\<close>

definition get_text ::
  "(real \<Rightarrow> string) \<Rightarrow> grid_label \<Rightarrow> bool \<Rightarrow> real list \<Rightarrow> int \<Rightarrow> error + string"
where
  "get_text fmt gl lg points i =
     (case gl of
        GCall f \<Rightarrow> (case item_py points i of Inl e \<Rightarrow> Inl e | Inr v \<Rightarrow> Inr (f (funcexp lg v)))
      | GSeq ss \<Rightarrow> item_py ss i
      | GBool b \<Rightarrow> (case item_py points i of Inl e \<Rightarrow> Inl e | Inr v \<Rightarrow> Inr (fmt (funcexp lg v))))"

text \<open>The axis titles (\<open>if xlabel:\<close>, \<open>if ylabel:\<close>).\<close>

definition place_titles :: "(string \<Rightarrow> real \<times> real) \<Rightarrow> graph \<Rightarrow> layout \<Rightarrow> graph \<times> layout" where
  "place_titles ts g lay =
     (let (g1, lay1) =
            (case g_xlabel_w g of
               None \<Rightarrow> (g, lay)
             | Some xl \<Rightarrow>
                 (let xl1 = texture_update ts (xl\<lparr>l_text := g_xlabel g\<rparr>);
                      xl2 = xl1\<lparr>l_size := l_texture_size xl1\<rparr>;
                      xl3 = xl2\<lparr>l_pos :=
                              (of_int (py_int (g_x g + g_width g / 2 - l_width xl2 / 2)),
                               of_int (py_int (g_padding g + g_y g)))\<rparr>
                  in (g\<lparr>g_xlabel_w := Some xl3\<rparr>,
                      lay\<lparr>y_next := y_next lay + (g_padding g + l_height xl3)\<rparr>)))
      in case g_ylabel_w g1 of
           None \<Rightarrow> (g1, lay1)
         | Some yl \<Rightarrow>
             (let yl1 = texture_update ts (yl\<lparr>l_text := g_ylabel g1\<rparr>);
                  yl2 = yl1\<lparr>l_size := l_texture_size yl1\<rparr>;
                  yl3 = yl2\<lparr>l_pos :=
                          (g_padding g1 + g_x g1 - (l_width yl2 / 2 - l_height yl2 / 2), l_y yl2)\<rparr>
              in (g1\<lparr>g_ylabel_w := Some yl3\<rparr>,
                  lay1\<lparr>x_next := x_next lay1 + (g_padding g1 + l_height yl3)\<rparr>)))"

text \<open>
  The first loop over the y tick labels: an \<open>IndexError\<close> of \<open>get_text\<close> leaves
  the loop (\<open>break\<close>). The indices come from \<open>range(len(ylabels))\<close>, so
  \<open>ylabels[k]\<close> exists.
\<close>

fun y_text_loop ::
  "(int \<Rightarrow> error + string) \<Rightarrow> (string \<Rightarrow> real \<times> real) \<Rightarrow> nat list \<Rightarrow> label list \<times> real
   \<Rightarrow> error + (label list \<times> real)"
where
  "y_text_loop gt ts [] st = Inr st"
| "y_text_loop gt ts (i # ks) (ls, y1) =
     (case gt (int i) of
        Inl e \<Rightarrow> (if e = IndexError then Inr (ls, y1) else Inl e)
      | Inr t \<Rightarrow>
          (let l1 = texture_update ts ((ls ! i)\<lparr>l_text := t\<rparr>);
               l2 = l1\<lparr>l_size := l_texture_size l1\<rparr>
           in y_text_loop gt ts ks (ls[i := l2], max y1 (fst (l_texture_size l2)))))"

text \<open>The second loop: every y tick label gets its position.\<close>

fun y_pos_loop ::
  "real \<Rightarrow> real \<Rightarrow> real \<Rightarrow> real \<Rightarrow> real \<Rightarrow> real list \<Rightarrow> nat list \<Rightarrow> label list
   \<Rightarrow> error + label list"
where
  "y_pos_loop xn y1 y_start ymin ratio ypoints [] ls = Inr ls"
| "y_pos_loop xn y1 y_start ymin ratio ypoints (i # ks) ls =
     (case item_py ypoints (int i) of
        Inl e \<Rightarrow> Inl e
      | Inr yp \<Rightarrow>
          y_pos_loop xn y1 y_start ymin ratio ypoints ks
            (ls[i := (ls ! i)\<lparr>l_pos :=
                       (of_int (py_int xn) - l_width (ls ! i) + y1,
                        of_int (py_int (y_start + (yp - ymin) * ratio)))\<rparr>]))"

text \<open>The block \<open>if len(ylabels) and ylabel_grid:\<close>.\<close>

definition y_tick_labels ::
  "(string \<Rightarrow> real \<times> real) \<Rightarrow> (real \<Rightarrow> string) \<Rightarrow> graph \<Rightarrow> layout \<Rightarrow> error + (graph \<times> layout)"
where
  "y_tick_labels ts fmt g lay =
     (let ylabels = g_y_grid_labels g;
          ypoints = g_ticks_majory g;
          padding = g_padding g;
          gt = get_text fmt (g_y_grid_label g) (g_ylog g) ypoints
      in if ylabels \<noteq> [] \<and> truthy (g_y_grid_label g) then
           (case gt 0 of
              Inl e \<Rightarrow> Inl e
            | Inr t0 \<Rightarrow>
           (let l0 = texture_update ts ((ylabels ! 0)\<lparr>l_text := t0\<rparr>);
                ylabels1 = ylabels[0 := l0];
                y1 = l_texture_size l0;
                y_start0 = y_next lay
                  + (if g_x_grid_labels g \<noteq> [] \<and> truthy (g_x_grid_label g)
                     then padding + snd y1 else 0)
                  + (if y_next lay = 0 then padding + snd y1 else 0);
                yext = g_y g + g_height g - padding - snd y1 / 2
            in case funclog (g_ylog g) (g_ymin g) of
                 Inl e \<Rightarrow> Inl e
               | Inr ymin \<Rightarrow>
              (case funclog (g_ylog g) (g_ymax g) of
                 Inl e \<Rightarrow> Inl e
               | Inr ymax \<Rightarrow>
              (case py_div (yext - y_start0) (ymax - ymin) of
                 Inl e \<Rightarrow> Inl e
               | Inr ratio \<Rightarrow>
              (let y_start = y_start0 - snd y1 / 2
               in case y_text_loop gt ts [0..<length ylabels1] (ylabels1, fst y1) of
                    Inl e \<Rightarrow> Inl e
                  | Inr (ylabels2, y1w) \<Rightarrow>
                 (case y_pos_loop (x_next lay) y1w y_start ymin ratio ypoints
                         [0..<length ylabels2] ylabels2 of
                    Inl e \<Rightarrow> Inl e
                  | Inr ylabels3 \<Rightarrow>
                      (let g1 = g\<lparr>g_y_grid_labels := ylabels3\<rparr>;
                           lay1 = lay\<lparr>yextent := yext\<rparr>
                       in if length ylabels3 > 1 \<and> l_top (ylabels3 ! 0) > l_y (ylabels3 ! 1)
                          then Inr (g1, lay1\<lparr>y_overlap := True\<rparr>)
                          else Inr (g1, lay1\<lparr>x_next := x_next lay + (y1w + padding)\<rparr>))))))))
         else Inr (g, lay))"

text \<open>
  The loop over the x tick labels: an \<open>IndexError\<close> of \<open>get_text\<close> is passed over
  (\<open>pass\<close>), the first label that starts left of \<open>right\<close> sets \<open>x_overlap\<close> and
  leaves the loop. The state is the labels, \<open>right\<close> and \<open>x_overlap\<close>.
\<close>

fun x_label_loop ::
  "(int \<Rightarrow> error + string) \<Rightarrow> (string \<Rightarrow> real \<times> real) \<Rightarrow> real \<Rightarrow> real \<Rightarrow> real \<Rightarrow> real
   \<Rightarrow> real list \<Rightarrow> nat list \<Rightarrow> label list \<times> real \<times> bool \<Rightarrow> error + (label list \<times> real \<times> bool)"
where
  "x_label_loop gt ts xn yn xmin ratio xpoints [] st = Inr st"
| "x_label_loop gt ts xn yn xmin ratio xpoints (i # ks) (ls, right, ov) =
     (case (case gt (int i) of
              Inl e \<Rightarrow> (if e = IndexError then Inr (ls ! i) else Inl e)
            | Inr t \<Rightarrow> Inr ((ls ! i)\<lparr>l_text := t\<rparr>)) of
        Inl e \<Rightarrow> Inl e
      | Inr l0 \<Rightarrow>
          (let l1 = texture_update ts l0;
               l2 = l1\<lparr>l_size := l_texture_size l1\<rparr>;
               half_ts = fst (l_texture_size l2) / 2
           in case item_py xpoints (int i) of
                Inl e \<Rightarrow> Inl e
              | Inr xp \<Rightarrow>
                  (let l3 = l2\<lparr>l_pos := (of_int (py_int (xn + (xp - xmin) * ratio - half_ts)),
                                          of_int (py_int yn))\<rparr>;
                       ls1 = ls[i := l3]
                   in if l_x l3 < right then Inr (ls1, right, True)
                      else x_label_loop gt ts xn yn xmin ratio xpoints ks (ls1, l_right l3, ov))))"

text \<open>The block \<open>if len(xlabels) and xlabel_grid:\<close>.\<close>

definition x_tick_labels ::
  "(string \<Rightarrow> real \<times> real) \<Rightarrow> (real \<Rightarrow> string) \<Rightarrow> graph \<Rightarrow> layout \<Rightarrow> error + (graph \<times> layout)"
where
  "x_tick_labels ts fmt g lay =
     (let xlabels = g_x_grid_labels g;
          xpoints = g_ticks_majorx g;
          padding = g_padding g;
          gt = get_text fmt (g_x_grid_label g) (g_xlog g) xpoints
      in if xlabels \<noteq> [] \<and> truthy (g_x_grid_label g) then
           (case gt (- 1) of
              Inl e \<Rightarrow> Inl e
            | Inr t_last \<Rightarrow>
           (let la = texture_update ts ((xlabels ! 0)\<lparr>l_text := t_last\<rparr>);
                xext = g_x g + g_width g - fst (l_texture_size la) / 2 - padding
            in case (if x_next lay = 0 then
                       (case gt 0 of
                          Inl e \<Rightarrow> Inl e
                        | Inr t0 \<Rightarrow>
                            (let lb = texture_update ts (la\<lparr>l_text := t0\<rparr>)
                             in Inr (lb, padding + fst (l_texture_size lb) / 2)))
                     else Inr (la, x_next lay)) of
                 Inl e \<Rightarrow> Inl e
               | Inr (l0, xn) \<Rightarrow>
              (case funclog (g_xlog g) (g_xmin g) of
                 Inl e \<Rightarrow> Inl e
               | Inr xmin \<Rightarrow>
              (case funclog (g_xlog g) (g_xmax g) of
                 Inl e \<Rightarrow> Inl e
               | Inr xmax \<Rightarrow>
              (case py_div (xext - xn) (xmax - xmin) of
                 Inl e \<Rightarrow> Inl e
               | Inr ratio \<Rightarrow>
              (case x_label_loop gt ts xn (y_next lay) xmin ratio xpoints
                      [0..<length xlabels] (xlabels[0 := l0], - 1, x_overlap lay) of
                 Inl e \<Rightarrow> Inl e
               | Inr (xlabels1, right, ov) \<Rightarrow>
                   (let g1 = g\<lparr>g_x_grid_labels := xlabels1\<rparr>;
                        lay1 = lay\<lparr>xextent := xext, x_next := xn, x_overlap := ov\<rparr>
                    in if \<not> ov
                       then Inr (g1, lay1\<lparr>y_next := y_next lay
                                            + (padding + snd (l_texture_size (xlabels1 ! 0)))\<rparr>)
                       else Inr (g1, lay1))))))))
         else Inr (g, lay))"

text \<open>
  The end of \<open>_update_labels\<close>: the titles are centred again, the labels of an
  axis with an overlap are blanked, and the box is returned relative to the
  position of the graph.
\<close>

definition blank :: "label list \<Rightarrow> label list" where
  "blank ls = map (\<lambda>l. l\<lparr>l_text := []\<rparr>) ls"

definition finish_labels :: "graph \<Rightarrow> layout \<Rightarrow> graph \<times> box" where
  "finish_labels g lay =
     (let g1 = (case g_xlabel_w g of
                  None \<Rightarrow> g
                | Some xl \<Rightarrow>
                    g\<lparr>g_xlabel_w := Some (xl\<lparr>l_pos :=
                        (of_int (py_int (x_next lay + (xextent lay - x_next lay) / 2
                                         - l_width xl / 2)), l_y xl)\<rparr>)\<rparr>);
          g2 = (case g_ylabel_w g1 of
                  None \<Rightarrow> g1
                | Some yl \<Rightarrow>
                    g1\<lparr>g_ylabel_w := Some (yl\<lparr>l_pos :=
                        (l_x yl, of_int (py_int (y_next lay + (yextent lay - y_next lay) / 2
                                                 - l_height yl / 2))),
                        l_angle := 90\<rparr>)\<rparr>);
          g3 = (if x_overlap lay then g2\<lparr>g_x_grid_labels := blank (g_x_grid_labels g2)\<rparr> else g2);
          g4 = (if y_overlap lay then g3\<lparr>g_y_grid_labels := blank (g_y_grid_labels g3)\<rparr> else g3)
      in (g4, (x_next lay - g_x g, y_next lay - g_y g, xextent lay - g_x g, yextent lay - g_y g)))"

definition update_labels ::
  "(string \<Rightarrow> real \<times> real) \<Rightarrow> (real \<Rightarrow> string) \<Rightarrow> graph \<Rightarrow> error + (graph \<times> box)"
where
  "update_labels ts fmt g =
     (let lay0 = \<lparr>x_next = g_padding g + g_x g, y_next = g_padding g + g_y g,
                  xextent = g_width g + g_x g, yextent = g_height g + g_y g,
                  x_overlap = False, y_overlap = False\<rparr>;
          (g1, lay1) = place_titles ts g lay0
      in case y_tick_labels ts fmt g1 lay1 of
           Inl e \<Rightarrow> Inl e
         | Inr (g2, lay2) \<Rightarrow>
             (case x_tick_labels ts fmt g2 lay2 of
                Inl e \<Rightarrow> Inl e
              | Inr (g3, lay3) \<Rightarrow> Inr (finish_labels g3 lay3)))"

section \<open>Auxiliary notions for the proofs\<close>

text \<open>
  The test of the linear loop that sends index \<open>m\<close> to the minor ticks:
  \<open>minor and m % minor\<close>.
\<close>

definition is_minor :: "real \<Rightarrow> nat \<Rightarrow> bool" where
  "is_minor minor m \<longleftrightarrow> minor \<noteq> 0 \<and> py_mod (real m) minor \<noteq> 0"

text \<open>
  Calling the closure that \<open>x_px()\<close> or \<open>y_px()\<close> returned: \<open>self.x_px()(v)\<close>.
\<close>

definition call :: "error + (real \<Rightarrow> error + real) \<Rightarrow> real \<Rightarrow> error + real" where
  "call r v = (case r of Inl e \<Rightarrow> Inl e | Inr f \<Rightarrow> f v)"

text \<open>
  What \<open>to_data\<close> does with one normalised coordinate: the inner conditional of
  the source, the same for both axes.
\<close>

definition conv_axis :: "bool \<Rightarrow> real \<Rightarrow> real \<Rightarrow> real \<Rightarrow> error + real" where
  "conv_axis lg mn mx nrm =
     (if lg then
        (case log10 mn of
           Inl e \<Rightarrow> Inl e
         | Inr lo \<Rightarrow> (case log10 mx of Inl e \<Rightarrow> Inl e | Inr hi \<Rightarrow> Inr (exp10 (nrm * (hi - lo) + lo))))
      else Inr (nrm * (mx - mn) + mn))"

text \<open>
  Concrete inputs. \<open>default_label\<close> is a fresh \<open>Label\<close> and \<open>default_graph\<close> a fresh
  \<open>Graph\<close>, every property at the default of its declaration (\<open>padding\<close> is
  \<open>5dp\<close>, taken at density 1; a widget is 100 by 100 at the origin).
  \<open>overlap_graph\<close> is a graph 200 by 200 whose y axis runs from 0 to 100 with
  \<open>y_ticks_major = [0, 50, 51]\<close>, the three tick label widgets that \<open>_redraw_y\<close>
  creates for them, and \<open>y_grid_label = ['0', '50', '51']\<close>. \<open>char_cells\<close> is a
  text measurement: 7 pixels for each character, 14 pixels high.
\<close>

definition default_label :: label where
  "default_label = \<lparr>l_text = [], l_texture_size = (0, 0), l_size = (100, 100), l_pos = (0, 0),
                     l_angle = 0\<rparr>"

definition default_graph :: graph where
  "default_graph =
     \<lparr>g_x = 0, g_y = 0, g_width = 100, g_height = 100, g_padding = 5,
      g_xlabel = [], g_ylabel = [], g_xlabel_w = None, g_ylabel_w = None,
      g_ticks_majorx = [], g_ticks_majory = [], g_x_grid_labels = [], g_y_grid_labels = [],
      g_x_grid_label = GBool False, g_y_grid_label = GBool False,
      g_xlog = False, g_xmin = 0, g_xmax = 100, g_ylog = False, g_ymin = 0, g_ymax = 100,
      g_plot_area_pos = (0, 0), g_plot_area_size = (100, 100),
      g_view_pos = (0, 0), g_view_size = (0, 0)\<rparr>"

definition overlap_graph :: graph where
  "overlap_graph = default_graph
     \<lparr>g_width := 200, g_height := 200,
      g_ticks_majory := [0, 50, 51],
      g_y_grid_labels := [default_label, default_label, default_label],
      g_y_grid_label := GSeq [''0'', ''50'', ''51'']\<rparr>"

definition char_cells :: "string \<Rightarrow> real \<times> real" where
  "char_cells t = (7 * real (length t), 14)"

text \<open>
  The logarithmic loop with \<open>minor = 0\<close>, by the value of \<open>count\<close>: the position
  \<open>pos_dec\<close>, its fractional part \<open>diff\<close>, the test \<open>zero\<close>, the value \<open>pos_log\<close>
  and the acceptance test \<open>zero or diff >= min_pos\<close>. \<open>lg_good\<close> holds for a round
  that stores a tick; \<open>lg_top x\<close> is the position, in decade notation, of the
  logarithm \<open>x\<close>.
\<close>

definition lg_pos :: "real \<Rightarrow> real \<Rightarrow> nat \<Rightarrow> real" where
  "lg_pos d start n = start + d * real n"

definition lg_diff :: "real \<Rightarrow> real \<Rightarrow> nat \<Rightarrow> real" where
  "lg_diff d start n = lg_pos d start n - of_int \<lfloor>lg_pos d start n\<rfloor>"

definition lg_zero :: "real \<Rightarrow> real \<Rightarrow> nat \<Rightarrow> bool" where
  "lg_zero d start n \<longleftrightarrow> \<bar>lg_diff d start n\<bar> < 0.001 * d"

definition lg_plog :: "real \<Rightarrow> real \<Rightarrow> nat \<Rightarrow> real" where
  "lg_plog d start n =
     (if lg_zero d start n then of_int \<lfloor>lg_pos d start n\<rfloor>
      else log 10 (lg_diff d start n * exp10 (of_int \<lceil>lg_pos d start n\<rceil>)))"

definition lg_acc :: "real \<Rightarrow> real \<Rightarrow> nat \<Rightarrow> bool" where
  "lg_acc d start n \<longleftrightarrow> lg_zero d start n \<or> lg_diff d start n \<ge> 0.1 - 0.00001 * d"

definition lg_good :: "real \<Rightarrow> real \<Rightarrow> real \<Rightarrow> nat \<Rightarrow> bool" where
  "lg_good d start s_max n \<longleftrightarrow> lg_acc d start n \<and> lg_plog d start n \<le> s_max"

definition lg_top :: "real \<Rightarrow> real" where
  "lg_top x = of_int \<lfloor>x\<rfloor> + 10 powr (x - of_int \<lfloor>x\<rfloor> - 1)"

section \<open>Properties of the linear tick loop\<close>

lemma take_update_last: "i < length xs \<Longrightarrow> take (Suc i) (xs[i := v]) = take i xs @ [v]"
  by (simp add: take_Suc_conv_app_nth)

lemma put_major_ok:
  assumes "k_major st < length (points_major st)"
  shows "\<exists>st'. put_major st v = Inr st' \<and>
           take (k_major st') (points_major st') = take (k_major st) (points_major st) @ [v] \<and>
           k_major st' = Suc (k_major st) \<and> length (points_major st') = length (points_major st) \<and>
           points_minor st' = points_minor st \<and> k_minor st' = k_minor st"
  using assms by (simp add: put_major_def assign_def take_update_last)

lemma put_minor_ok:
  assumes "k_minor st < length (points_minor st)"
  shows "\<exists>st'. put_minor st v = Inr st' \<and>
           take (k_minor st') (points_minor st') = take (k_minor st) (points_minor st) @ [v] \<and>
           k_minor st' = Suc (k_minor st) \<and> length (points_minor st') = length (points_minor st) \<and>
           points_major st' = points_major st \<and> k_major st' = k_major st"
  using assms by (simp add: put_minor_def assign_def take_update_last)

lemma linear_loop_ok:
  assumes "k_major st + length (filter (\<lambda>m. \<not> is_minor minor m) ms) \<le> length (points_major st)"
      and "k_minor st + length (filter (is_minor minor) ms) \<le> length (points_minor st)"
  shows "\<exists>st'. for_loop (linear_body minor td a) ms st = Inr st' \<and>
           take (k_major st') (points_major st') =
             take (k_major st) (points_major st) @ map (\<lambda>m. real m * td + a) (filter (\<lambda>m. \<not> is_minor minor m) ms) \<and>
           take (k_minor st') (points_minor st') =
             take (k_minor st) (points_minor st) @ map (\<lambda>m. real m * td + a) (filter (is_minor minor) ms) \<and>
           length (points_major st') = length (points_major st) \<and>
           length (points_minor st') = length (points_minor st)"
  using assms
proof (induction ms arbitrary: st)
  case Nil
  then show ?case by simp
next
  case (Cons m ms)
  show ?case
  proof (cases "is_minor minor m")
    case True
    with Cons.prems have "k_minor st < length (points_minor st)" by simp
    from put_minor_ok[OF this, of "real m * td + a"] obtain st1 where
      s1: "put_minor st (real m * td + a) = Inr st1"
          "take (k_minor st1) (points_minor st1) = take (k_minor st) (points_minor st) @ [real m * td + a]"
          "k_minor st1 = Suc (k_minor st)" "length (points_minor st1) = length (points_minor st)"
          "points_major st1 = points_major st" "k_major st1 = k_major st"
      by blast
    have body: "linear_body minor td a st m = Inr st1"
      using True s1(1) by (simp add: linear_body_def is_minor_def)
    have p1: "k_major st1 + length (filter (\<lambda>m. \<not> is_minor minor m) ms) \<le> length (points_major st1)"
      using Cons.prems(1) True s1 by simp
    have p2: "k_minor st1 + length (filter (is_minor minor) ms) \<le> length (points_minor st1)"
      using Cons.prems(2) True s1 by simp
    from Cons.IH[OF p1 p2] obtain st' where
      "for_loop (linear_body minor td a) ms st1 = Inr st'"
      "take (k_major st') (points_major st') =
             take (k_major st1) (points_major st1) @ map (\<lambda>m. real m * td + a) (filter (\<lambda>m. \<not> is_minor minor m) ms)"
      "take (k_minor st') (points_minor st') =
             take (k_minor st1) (points_minor st1) @ map (\<lambda>m. real m * td + a) (filter (is_minor minor) ms)"
      "length (points_major st') = length (points_major st1)"
      "length (points_minor st') = length (points_minor st1)"
      by blast
    then show ?thesis using body True s1 by simp
  next
    case False
    with Cons.prems have "k_major st < length (points_major st)" by simp
    from put_major_ok[OF this, of "real m * td + a"] obtain st1 where
      s1: "put_major st (real m * td + a) = Inr st1"
          "take (k_major st1) (points_major st1) = take (k_major st) (points_major st) @ [real m * td + a]"
          "k_major st1 = Suc (k_major st)" "length (points_major st1) = length (points_major st)"
          "points_minor st1 = points_minor st" "k_minor st1 = k_minor st"
      by blast
    have body: "linear_body minor td a st m = Inr st1"
      using False s1(1) by (auto simp add: linear_body_def is_minor_def)
    have p1: "k_major st1 + length (filter (\<lambda>m. \<not> is_minor minor m) ms) \<le> length (points_major st1)"
      using Cons.prems(1) False s1 by simp
    have p2: "k_minor st1 + length (filter (is_minor minor) ms) \<le> length (points_minor st1)"
      using Cons.prems(2) False s1 by simp
    from Cons.IH[OF p1 p2] obtain st' where
      "for_loop (linear_body minor td a) ms st1 = Inr st'"
      "take (k_major st') (points_major st') =
             take (k_major st1) (points_major st1) @ map (\<lambda>m. real m * td + a) (filter (\<lambda>m. \<not> is_minor minor m) ms)"
      "take (k_minor st') (points_minor st') =
             take (k_minor st1) (points_minor st1) @ map (\<lambda>m. real m * td + a) (filter (is_minor minor) ms)"
      "length (points_major st') = length (points_major st1)"
      "length (points_minor st') = length (points_minor st1)"
      by blast
    then show ?thesis using body False s1 by simp
  qed
qed

lemma is_minor_nat: "is_minor (real c) m \<longleftrightarrow> c \<noteq> 0 \<and> \<not> c dvd m"
proof (cases "c = 0")
  case True then show ?thesis by (simp add: is_minor_def)
next
  case False
  have "\<lfloor>real m / real c\<rfloor> = int (m div c)" by (simp add: floor_divide_of_nat_eq)
  then have "py_mod (real m) (real c) = real m - real c * real (m div c)"
    by (simp add: py_mod_def)
  also have "\<dots> = real (m mod c)"
    by (metis add_diff_cancel_left' mult_div_mod_eq of_nat_add of_nat_mult)
  finally show ?thesis using False by (simp add: is_minor_def mod_eq_0_iff_dvd)
qed

lemma filter_dvd_upt:
  assumes "0 < c"
  shows "filter (\<lambda>m. c dvd m) [0..<n] = map (\<lambda>j. j * c) [0..<(n + c - 1) div c]"
proof (rule sorted_distinct_set_unique)
  show "sorted (filter (\<lambda>m. c dvd m) [0..<n])" by (simp add: sorted_wrt_filter)
  show "distinct (filter (\<lambda>m. c dvd m) [0..<n])" by simp
  show "sorted (map (\<lambda>j. j * c) [0..<(n + c - 1) div c])"
    by (simp add: sorted_iff_nth_mono)
  show "distinct (map (\<lambda>j. j * c) [0..<(n + c - 1) div c])"
    using assms by (simp add: distinct_map inj_on_def)
  have iff: "j < (n + c - 1) div c \<longleftrightarrow> j * c < n" for j
  proof -
    have "j < (n + c - 1) div c \<longleftrightarrow> Suc j \<le> (n + c - 1) div c" by auto
    also have "\<dots> \<longleftrightarrow> Suc j * c \<le> n + c - 1"
      using assms by (simp add: less_eq_div_iff_mult_less_eq)
    also have "\<dots> \<longleftrightarrow> j * c < n" using assms by auto
    finally show ?thesis .
  qed
  show "set (filter (\<lambda>m. c dvd m) [0..<n]) = set (map (\<lambda>j. j * c) [0..<(n + c - 1) div c])"
  proof (rule set_eqI)
    fix m
    show "m \<in> set (filter (\<lambda>m. c dvd m) [0..<n]) \<longleftrightarrow> m \<in> set (map (\<lambda>j. j * c) [0..<(n + c - 1) div c])"
    proof
      assume "m \<in> set (filter (\<lambda>m. c dvd m) [0..<n])"
      then have "m < n" "c dvd m" by auto
      then obtain j where "m = j * c" by (auto simp: dvd_def mult.commute)
      with \<open>m < n\<close> iff[of j] show "m \<in> set (map (\<lambda>j. j * c) [0..<(n + c - 1) div c])" by auto
    next
      assume "m \<in> set (map (\<lambda>j. j * c) [0..<(n + c - 1) div c])"
      then have "\<exists>j. j < (n + c - 1) div c \<and> m = j * c" by auto
      then obtain j where "j < (n + c - 1) div c" "m = j * c" by blast
      with iff[of j] show "m \<in> set (filter (\<lambda>m. c dvd m) [0..<n])" by auto
    qed
  qed
qed

lemma filter_dvd_upt_Suc:
  assumes "0 < c"
  shows "filter (\<lambda>m. c dvd m) [0..<Suc N] = map (\<lambda>j. j * c) [0..<Suc (N div c)]"
proof -
  have "(Suc N + c - 1) div c = Suc (N div c)" using assms by simp
  with filter_dvd_upt[OF assms, of "Suc N"] show ?thesis by simp
qed

lemma floor_scaled_div:
  fixes x :: real
  assumes "0 < c" "0 \<le> x"
  shows "nat \<lfloor>x * real c\<rfloor> div c = nat \<lfloor>x\<rfloor>"
proof -
  have "\<lfloor>x * real c / real_of_int (int c)\<rfloor> = \<lfloor>x * real c\<rfloor> div int c"
    by (rule floor_divide_real_eq_div) simp
  moreover have "x * real c / real_of_int (int c) = x" using assms by simp
  ultimately have "\<lfloor>x\<rfloor> = \<lfloor>x * real c\<rfloor> div int c" by simp
  moreover have "0 \<le> \<lfloor>x * real c\<rfloor>" using assms by simp
  ultimately show ?thesis by (simp add: nat_div_distrib)
qed

lemma length_filter_compl:
  "length (filter (\<lambda>x. \<not> P x) xs) = length xs - length (filter P xs)"
  using sum_length_filter_compl[of P xs] by simp

lemma linear_ticks_nat:
  fixes major a b :: real and c :: nat
  assumes "0 < major" "a \<noteq> b"
  defines "d \<equiv> major / (if c = 0 then 1 else real c)"
  defines "N \<equiv> nat \<lfloor>\<bar>b - a\<bar> / d\<rfloor>"
  defines "td \<equiv> d * (if a < b then 1 else - 1)"
  shows "\<exists>st. linear_ticks major (real c) a b = Inr st \<and>
     take (k_major st) (points_major st) =
       map (\<lambda>m. real m * td + a) (filter (\<lambda>m. c = 0 \<or> c dvd m) [0..<Suc N]) \<and>
     take (k_minor st) (points_minor st) =
       map (\<lambda>m. real m * td + a) (filter (\<lambda>m. c \<noteq> 0 \<and> \<not> c dvd m) [0..<Suc N])"
proof -
  have dpos: "0 < d" using assms(1) by (simp add: d_def)
  define M where "M = nat \<lfloor>\<bar>b - a\<bar> / major\<rfloor>"
  define st0 where "st0 = \<lparr>points_major = zeros (\<lfloor>\<bar>(b - a) / major\<bar>\<rfloor> + 1),
      points_minor = zeros (\<lfloor>\<bar>(b - a) / d\<bar>\<rfloor> + 1 - int (length (zeros (\<lfloor>\<bar>(b - a) / major\<bar>\<rfloor> + 1))) + 1),
      k_major = 0, k_minor = 0\<rparr>"
  have abs1: "\<bar>d\<bar> = d" using dpos by simp
  have abs2: "\<bar>major\<bar> = major" using assms(1) by simp
  have fl1: "0 \<le> \<lfloor>\<bar>b - a\<bar> / d\<rfloor>" using dpos by simp
  have fl2: "0 \<le> \<lfloor>\<bar>b - a\<bar> / major\<rfloor>" using assms(1) by simp
  have nt: "nat (\<lfloor>\<bar>(b - a) / d\<bar>\<rfloor> + 1) = Suc N"
    using fl1 by (simp add: abs1 N_def nat_add_distrib)
  have lmaj: "length (points_major st0) = Suc M"
    using fl2 by (simp add: st0_def zeros_def abs2 M_def nat_add_distrib)
  have MN: "M \<le> N \<and> (c \<noteq> 0 \<longrightarrow> N div c = M) \<and> (c = 0 \<longrightarrow> N = M)"
  proof (cases "c = 0")
    case True
    then show ?thesis by (simp add: N_def M_def d_def)
  next
    case False
    then have c: "0 < c" by simp
    have "\<bar>b - a\<bar> / d = \<bar>b - a\<bar> / major * real c" using False by (simp add: d_def)
    then have Neq: "N = nat \<lfloor>\<bar>b - a\<bar> / major * real c\<rfloor>" by (simp only: N_def)
    have "0 \<le> \<bar>b - a\<bar> / major" using assms(1) by simp
    from floor_scaled_div[OF c this] have "N div c = M" unfolding Neq M_def .
    moreover have "N div c \<le> N" by simp
    ultimately show ?thesis using False by simp
  qed
  have lmin: "length (points_minor st0) = Suc N - M"
  proof -
    have "\<lfloor>\<bar>(b - a) / d\<bar>\<rfloor> + 1 - int (length (zeros (\<lfloor>\<bar>(b - a) / major\<bar>\<rfloor> + 1))) + 1
          = int N - int M + 1"
      using fl1 fl2 by (simp add: zeros_def abs1 abs2 N_def M_def nat_add_distrib)
    then show ?thesis using MN by (simp add: st0_def zeros_def nat_add_distrib nat_diff_distrib' Suc_diff_le)
  qed
  have notmin: "(\<lambda>m. \<not> is_minor (real c) m) = (\<lambda>m. c = 0 \<or> c dvd m)"
    by (auto simp: is_minor_nat)
  have ismin: "is_minor (real c) = (\<lambda>m. c \<noteq> 0 \<and> \<not> c dvd m)"
    by (auto simp: is_minor_nat)
  have cmaj: "length (filter (\<lambda>m. c = 0 \<or> c dvd m) [0..<Suc N]) = Suc M"
  proof (cases "c = 0")
    case True
    then show ?thesis using MN by simp
  next
    case False
    then have "filter (\<lambda>m. c = 0 \<or> c dvd m) [0..<Suc N] = filter (\<lambda>m. c dvd m) [0..<Suc N]"
      by simp
    also have "\<dots> = map (\<lambda>j. j * c) [0..<Suc (N div c)]"
      using False by (intro filter_dvd_upt_Suc) simp
    finally show ?thesis using MN False by simp
  qed
  have cmin: "length (filter (\<lambda>m. c \<noteq> 0 \<and> \<not> c dvd m) [0..<Suc N]) = N - M"
  proof -
    have "(\<lambda>m. c \<noteq> 0 \<and> \<not> c dvd m) = (\<lambda>m. \<not> (c = 0 \<or> c dvd m))" by auto
    then have "length (filter (\<lambda>m. c \<noteq> 0 \<and> \<not> c dvd m) [0..<Suc N])
        = length [0..<Suc N] - length (filter (\<lambda>m. c = 0 \<or> c dvd m) [0..<Suc N])"
      by (simp only: length_filter_compl)
    then show ?thesis using cmaj by simp
  qed
  have cap1: "k_major st0 + length (filter (\<lambda>m. \<not> is_minor (real c) m) [0..<Suc N])
                \<le> length (points_major st0)"
    using cmaj lmaj by (simp add: notmin st0_def)
  have cap2: "k_minor st0 + length (filter (is_minor (real c)) [0..<Suc N])
                \<le> length (points_minor st0)"
    using cmin lmin by (simp add: ismin st0_def)
  from linear_loop_ok[OF cap1 cap2, of td a] obtain st where
    st: "for_loop (linear_body (real c) td a) [0..<Suc N] st0 = Inr st"
        "take (k_major st) (points_major st) =
           take (k_major st0) (points_major st0) @
           map (\<lambda>m. real m * td + a) (filter (\<lambda>m. \<not> is_minor (real c) m) [0..<Suc N])"
        "take (k_minor st) (points_minor st) =
           take (k_minor st0) (points_minor st0) @
           map (\<lambda>m. real m * td + a) (filter (is_minor (real c)) [0..<Suc N])"
    by blast
  have d_eq: "major / (if real c \<noteq> 0 then real c else 1) = d" by (simp add: d_def)
  have td_eq: "\<bar>d\<bar> * (if a < b then 1 else - 1) = td" using dpos by (simp add: td_def)
  have "linear_ticks major (real c) a b = for_loop (linear_body (real c) td a) [0..<Suc N] st0"
    unfolding linear_ticks_def Let_def d_eq td_eq nt st0_def ..
  with st show ?thesis by (simp add: notmin ismin st0_def)
qed

lemma sorted_py_up:
  fixes d a :: real
  assumes "sorted ms" "0 \<le> d"
  shows "sorted_py (map (\<lambda>m. real m * d + a) ms) False = map (\<lambda>m. real m * d + a) ms"
proof -
  have "sorted (map (\<lambda>m. real m * d + a) ms)"
    unfolding sorted_map using assms(1)
    by (rule sorted_wrt_mono_rel[rotated]) (use assms(2) in \<open>simp add: mult_right_mono\<close>)
  then show ?thesis by (simp add: sorted_py_def sorted_sort_id)
qed

lemma sorted_py_down:
  fixes d a :: real
  assumes "sorted ms" "distinct ms" "d < 0"
  shows "sorted_py (map (\<lambda>m. real m * d + a) ms) True = map (\<lambda>m. real m * d + a) ms"
proof -
  let ?f = "\<lambda>m. real m * d + a"
  let ?xs = "map ?f ms"
  have inj: "inj_on ?f (set ms)" using assms(3) by (auto simp: inj_on_def)
  have dist: "distinct ?xs" using assms(2) inj by (simp add: distinct_map)
  have "sorted (rev ?xs)"
  proof (subst sorted_rev_iff_nth_mono, intro allI impI)
    fix i j assume ij: "i \<le> j" "j < length ?xs"
    then have "ms ! i \<le> ms ! j" using assms(1) by (simp add: sorted_nth_mono)
    then have "real (ms ! j) * d \<le> real (ms ! i) * d"
      using assms(3) by (simp add: mult_right_mono_neg)
    then show "?xs ! j \<le> ?xs ! i" using ij by simp
  qed
  then have "sort ?xs = rev ?xs"
    using dist by (intro sorted_distinct_set_unique) simp_all
  then show ?thesis by (simp add: sorted_py_def)
qed

lemma get_ticks_linear:
  fixes major a b :: real and i :: int
  assumes "0 < major" "a \<noteq> b"
  defines "c \<equiv> nat i"
  defines "d \<equiv> major / (if c = 0 then 1 else real c)"
  defines "N \<equiv> nat \<lfloor>\<bar>b - a\<bar> / d\<rfloor>"
  defines "td \<equiv> d * (if a < b then 1 else - 1)"
  shows "get_ticks (Num major) (Num (of_int i)) False a b =
     Some (Inr (map (\<lambda>m. real m * td + a) (filter (\<lambda>m. c = 0 \<or> c dvd m) [0..<Suc N]),
                map (\<lambda>m. real m * td + a) (filter (\<lambda>m. c \<noteq> 0 \<and> \<not> c dvd m) [0..<Suc N])))"
proof -
  have mx: "max (real_of_int i) 0 = real c" by (simp add: c_def max_def)
  from linear_ticks_nat[OF assms(1,2), of c] obtain st where
    st: "linear_ticks major (real c) a b = Inr st"
        "take (k_major st) (points_major st) =
           map (\<lambda>m. real m * td + a) (filter (\<lambda>m. c = 0 \<or> c dvd m) [0..<Suc N])"
        "take (k_minor st) (points_minor st) =
           map (\<lambda>m. real m * td + a) (filter (\<lambda>m. c \<noteq> 0 \<and> \<not> c dvd m) [0..<Suc N])"
    unfolding d_def N_def td_def by blast
  have dpos: "0 < d" using assms(1) by (simp add: d_def)
  have srt: "sorted_py (map (\<lambda>m. real m * td + a) (filter P [0..<Suc N])) (b < a)
              = map (\<lambda>m. real m * td + a) (filter P [0..<Suc N])" for P
  proof (cases "a < b")
    case True
    then have "td = d" by (simp add: td_def)
    moreover have "sorted (filter P [0..<Suc N])" by (simp add: sorted_wrt_filter del: upt_Suc)
    ultimately show ?thesis using True dpos sorted_py_up[of "filter P [0..<Suc N]" d a]
      by (simp del: upt_Suc)
  next
    case False
    then have ba: "b < a" using assms(2) by simp
    then have "td < 0" using dpos by (simp add: td_def)
    moreover have "sorted (filter P [0..<Suc N])" by (simp add: sorted_wrt_filter del: upt_Suc)
    moreover have "distinct (filter P [0..<Suc N])" by (simp del: upt_Suc)
    ultimately show ?thesis using ba sorted_py_down[of "filter P [0..<Suc N]" td a]
      by (simp del: upt_Suc)
  qed
  show ?thesis
    using assms(1,2) st srt by (simp add: get_ticks_def num_ticks_def mx del: upt_Suc)
qed



section \<open>Logarithms and the explicit-list branch\<close>

lemma log10_one: "log10 1 = Inr 0" by (simp add: log10_def)

lemma log10_hundred: "log10 100 = Inr 2"
proof -
  have "log 10 100 = log 10 (10 powr 2)" by simp
  also have "\<dots> = 2" by (simp only: log_powr_cancel)
  finally show ?thesis by (simp add: log10_def)
qed

lemma ceiling_tenth: "\<lceil>1 / 10 :: real\<rceil> = 1" by (simp add: ceiling_eq_iff)

lemma exp10_simps:
  "exp10 0 = 1" "exp10 1 = 10" "exp10 (- 1) = 1 / 10"
  "exp10 (numeral n) = 10 ^ numeral n"
  by (simp_all add: exp10_def powr_minus_divide)

lemma log10_all_pos:
  "\<forall>p\<in>set ps. 0 < p \<Longrightarrow> log10_all ps = Inr (map (log 10) ps)"
  by (induction ps) (simp_all add: log10_def)

lemma log10_all_Inr:
  "log10_all ps = Inr qs \<Longrightarrow> qs = map (log 10) ps \<and> (\<forall>p\<in>set ps. 0 < p)"
  by (induction ps arbitrary: qs) (auto simp: log10_def split: if_splits sum.splits)


lemma in_range_pos: "in_range a b p \<Longrightarrow> 0 < a \<Longrightarrow> 0 < b \<Longrightarrow> 0 < p"
  by (auto simp: in_range_def)

lemma set_sorted_py: "set (sorted_py xs r) = set xs"
  by (simp add: sorted_py_def)

lemma length_sorted_py: "length (sorted_py xs r) = length xs"
  by (simp add: sorted_py_def)

lemma log10_inj:
  fixes x y :: real
  assumes "0 < x" "0 < y" "log 10 x = log 10 y"
  shows "x = y"
proof (rule inj_onD[OF log_inj[of 10] assms(3)])
  show "(1::real) < 10" by simp
  show "x \<in> {0<..}" using assms(1) by simp
  show "y \<in> {0<..}" using assms(2) by simp
qed

lemma log_image_disjoint:
  assumes "\<forall>p\<in>A \<union> B. (0::real) < p" "A \<inter> B = {}"
  shows "log 10 ` A \<inter> log 10 ` B = {}"
proof (rule ccontr)
  assume "log 10 ` A \<inter> log 10 ` B \<noteq> {}"
  then obtain v where "v \<in> log 10 ` A" "v \<in> log 10 ` B" by blast
  then obtain x y where xy: "x \<in> A" "y \<in> B" "v = log 10 x" "v = log 10 y" by blast
  then have "0 < x" "0 < y" "log 10 x = log 10 y" using assms(1) by simp_all
  then have "x = y" by (rule log10_inj)
  with xy(1,2) assms(2) show False by blast
qed

text \<open>An explicit-list call reads no minor positions when \<open>minor\<close> is a number.\<close>

lemma get_ticks_seq:
  "get_ticks (Seq major) mn lg a b =
     (case seq_ticks major (case mn of Seq qs \<Rightarrow> qs | Num v \<Rightarrow> []) lg a b of
        Inl e \<Rightarrow> Some (Inl e)
      | Inr (pmaj, pmin) \<Rightarrow> Some (Inr (sorted_py pmaj (a > b), sorted_py pmin (a > b))))"
  by (cases mn) (simp_all add: get_ticks_def)

section \<open>The axis transforms\<close>

lemma axis_round_trip:
  fixes v lo hi s w :: real
  assumes "hi \<noteq> lo" "w \<noteq> 0"
  shows "((v - lo) * (w / (hi - lo)) + s - s) / w * (hi - lo) + lo = v"
  using assms by (simp add: field_simps)

lemma to_pixel_x:
  assumes "p_size p = (s0, s1, s2, s3)" "funcx p (p_xmin p) = Inr lo" "funcx p (p_xmax p) = Inr hi"
    "funcx p v = Inr fv" "hi \<noteq> lo"
  shows "\<exists>f. x_px p = Inr f \<and> f v = Inr ((fv - lo) * ((s2 - s0) / (hi - lo)) + s0)"
  using assms by (simp add: x_px_def Let_def)

lemma to_pixel_y:
  assumes "p_size p = (s0, s1, s2, s3)" "funcy p (p_ymin p) = Inr lo" "funcy p (p_ymax p) = Inr hi"
    "funcy p v = Inr fv" "hi \<noteq> lo"
  shows "\<exists>f. y_px p = Inr f \<and> f v = Inr ((fv - lo) * ((s3 - s1) / (hi - lo)) + s1)"
  using assms by (simp add: y_px_def Let_def)

lemma to_data_conv:
  assumes "fst (g_plot_area_size g) \<noteq> 0" "snd (g_plot_area_size g) \<noteq> 0"
    and "conv_axis (g_xlog g) (g_xmin g) (g_xmax g)
           ((x - fst (g_plot_area_pos g)) / fst (g_plot_area_size g)) = Inr cx"
    and "conv_axis (g_ylog g) (g_ymin g) (g_ymax g)
           ((y - snd (g_plot_area_pos g)) / snd (g_plot_area_size g)) = Inr cy"
  shows "to_data g x y = Inr (cx, cy)"
  using assms by (simp add: to_data_def py_div_def conv_axis_def Let_def)

lemma conv_axis_round_trip:
  assumes lo: "funclog lg mn = Inr lo" and hi: "funclog lg mx = Inr hi" and ne: "hi \<noteq> lo"
    and w: "w \<noteq> 0" and fv: "funclog lg v = Inr fv"
  shows "conv_axis lg mn mx (((fv - lo) * (w / (hi - lo)) + s - s) / w) = Inr v"
proof (cases lg)
  case False
  then have "lo = mn" "hi = mx" "fv = v" using lo hi fv by (simp_all add: funclog_def)
  then show ?thesis using False axis_round_trip[OF ne w, of fv s] by (simp only: conv_axis_def if_False)
next
  case True
  then have l: "log10 mn = Inr lo" "log10 mx = Inr hi" "log10 v = Inr fv"
    using lo hi fv by (simp_all add: funclog_def)
  then have "0 < v" "fv = log 10 v" by (simp_all add: log10_def split: if_splits)
  then have "exp10 fv = v" by (simp add: exp10_def)
  then show ?thesis using True l(1,2) axis_round_trip[OF ne w, of fv s]
    by (simp add: conv_axis_def)
qed

lemma funclog_in_range:
  assumes "funclog lg mn = Inr lo" "funclog lg mx = Inr hi" "in_range mn mx v"
  shows "\<exists>fv. funclog lg v = Inr fv"
proof (cases lg)
  case False
  then show ?thesis by (simp add: funclog_def)
next
  case True
  then have "0 < mn" "0 < mx" using assms(1,2) by (simp_all add: funclog_def log10_def split: if_splits)
  then have "0 < v" using assms(3) by (auto intro: in_range_pos)
  then show ?thesis using True by (simp add: funclog_def log10_def)
qed

section \<open>Swapping the bounds\<close>











section \<open>The logarithmic loop without minor ticks\<close>

lemma lg_diff_range: "0 \<le> lg_diff d start n" "lg_diff d start n < 1"
  unfolding lg_diff_def by linarith+

lemma lg_arg_pos:
  assumes "0 < d" "\<not> lg_zero d start n"
  shows "0 < lg_diff d start n * exp10 (of_int \<lceil>lg_pos d start n\<rceil>)"
proof -
  have "0 < lg_diff d start n" using assms lg_diff_range(1)[of d start n]
    by (simp add: lg_zero_def)
  moreover have "0 < exp10 (of_int \<lceil>lg_pos d start n\<rceil>)" by (simp add: exp10_def)
  ultimately show ?thesis by simp
qed

lemma log_loop_unfold:
  assumes "0 < d"
  shows "log_loop 0 d start (0.1 - 0.00001 * d) s_max st =
     (if lg_plog d start (count st) > s_max then Some (Inr st)
      else if lg_acc d start (count st) then
        (case assign (points_minor st) (k_minor st) (lg_plog d start (count st)) of
           Inl e \<Rightarrow> Some (Inl e)
         | Inr pm \<Rightarrow> log_loop 0 d start (0.1 - 0.00001 * d) s_max
              (st\<lparr>count := count st + 1, points_minor := pm, k_minor := k_minor st + 1,
                  count_min := count_min st + 1\<rparr>))
      else log_loop 0 d start (0.1 - 0.00001 * d) s_max
              (st\<lparr>count := count st + 1, count_min := count_min st + 1\<rparr>))"
proof (cases "lg_zero d start (count st)")
  case True
  then have z: "\<bar>start + d * real (count st) - of_int \<lfloor>start + d * real (count st)\<rfloor>\<bar> < 0.001 * d"
    by (simp add: lg_zero_def lg_diff_def lg_pos_def)
  show ?thesis
    apply (subst log_loop.simps)
    using True z
    apply (simp add: Let_def lg_plog_def lg_acc_def lg_pos_def split: sum.splits)
    done
next
  case False
  then have z: "\<not> \<bar>start + d * real (count st) - of_int \<lfloor>start + d * real (count st)\<rfloor>\<bar> < 0.001 * d"
    by (simp add: lg_zero_def lg_diff_def lg_pos_def)
  have p: "0 < (start + d * real (count st) - of_int \<lfloor>start + d * real (count st)\<rfloor>)
              * exp10 (of_int \<lceil>start + d * real (count st)\<rceil>)"
    using lg_arg_pos[OF assms False] by (simp add: lg_diff_def lg_pos_def)
  show ?thesis
    apply (subst log_loop.simps)
    using False z p
    apply (simp add: Let_def log10_def lg_plog_def lg_acc_def lg_pos_def lg_diff_def split: sum.splits)
    done
qed

lemma log_loop_run:
  assumes d: "0 < d"
    and le: "count st \<le> n"
    and stop: "lg_plog d start n > s_max"
    and cap: "\<And>m. count st \<le> m \<Longrightarrow> lg_acc d start m \<Longrightarrow>
                (\<forall>j. count st \<le> j \<and> j \<le> m \<longrightarrow> lg_plog d start j \<le> s_max) \<Longrightarrow>
                k_minor st + length (filter (lg_acc d start) [count st..<m]) < length (points_minor st)"
  shows "\<exists>st'. log_loop 0 d start (0.1 - 0.00001 * d) s_max st = Some (Inr st')"
  using le cap
proof (induction "n - count st" arbitrary: st)
  case 0
  then have "count st = n" by simp
  then show ?case using stop by (subst log_loop_unfold[OF d]) simp
next
  case (Suc k)
  show ?case
  proof (cases "lg_plog d start (count st) > s_max")
    case True
    then show ?thesis by (subst log_loop_unfold[OF d]) simp
  next
    case False
    then have ns: "lg_plog d start (count st) \<le> s_max" by simp
    have lt: "count st < n" using Suc.hyps(2) by simp
    show ?thesis
    proof (cases "lg_acc d start (count st)")
      case True
      have "k_minor st + length (filter (lg_acc d start) [count st..<count st]) < length (points_minor st)"
        by (rule Suc.prems(2)) (use True ns in auto)
      then have room: "k_minor st < length (points_minor st)" by simp
      define st2 where "st2 = st\<lparr>count := count st + 1,
          points_minor := (points_minor st)[k_minor st := lg_plog d start (count st)],
          k_minor := k_minor st + 1, count_min := count_min st + 1\<rparr>"
      have step: "log_loop 0 d start (0.1 - 0.00001 * d) s_max st
                  = log_loop 0 d start (0.1 - 0.00001 * d) s_max st2"
        using False True room
        by (subst log_loop_unfold[OF d]) (simp add: assign_def st2_def)
      have c2: "count st2 = count st + 1" "k_minor st2 = k_minor st + 1"
          "length (points_minor st2) = length (points_minor st)"
        by (simp_all add: st2_def)
      have "\<exists>st'. log_loop 0 d start (0.1 - 0.00001 * d) s_max st2 = Some (Inr st')"
      proof (rule Suc.hyps(1))
        show "k = n - count st2" using Suc.hyps(2) c2 by simp
        show "count st2 \<le> n" using lt c2 by simp
      next
        fix m assume m: "count st2 \<le> m" "lg_acc d start m"
          "\<forall>j. count st2 \<le> j \<and> j \<le> m \<longrightarrow> lg_plog d start j \<le> s_max"
        have "count st \<le> m" using m(1) c2 by simp
        moreover have "\<forall>j. count st \<le> j \<and> j \<le> m \<longrightarrow> lg_plog d start j \<le> s_max"
        proof (intro allI impI)
          fix j assume "count st \<le> j \<and> j \<le> m"
          then show "lg_plog d start j \<le> s_max"
            using ns m(3) c2 by (cases "j = count st") auto
        qed
        ultimately have "k_minor st + length (filter (lg_acc d start) [count st..<m])
              < length (points_minor st)"
          using m(2) by (intro Suc.prems(2))
        moreover have "[count st..<m] = count st # [count st2..<m]"
          using m(1) c2 by (simp add: upt_conv_Cons)
        ultimately show "k_minor st2 + length (filter (lg_acc d start) [count st2..<m])
              < length (points_minor st2)"
          using True c2 by simp
      qed
      then show ?thesis by (simp only: step)
    next
      case nacc: False
      define st2 where "st2 = st\<lparr>count := count st + 1, count_min := count_min st + 1\<rparr>"
      have step: "log_loop 0 d start (0.1 - 0.00001 * d) s_max st
                  = log_loop 0 d start (0.1 - 0.00001 * d) s_max st2"
        using False nacc by (subst log_loop_unfold[OF d]) (simp add: st2_def)
      have c2: "count st2 = count st + 1" "k_minor st2 = k_minor st"
          "length (points_minor st2) = length (points_minor st)"
        by (simp_all add: st2_def)
      have "\<exists>st'. log_loop 0 d start (0.1 - 0.00001 * d) s_max st2 = Some (Inr st')"
      proof (rule Suc.hyps(1))
        show "k = n - count st2" using Suc.hyps(2) c2 by simp
        show "count st2 \<le> n" using lt c2 by simp
      next
        fix m assume m: "count st2 \<le> m" "lg_acc d start m"
          "\<forall>j. count st2 \<le> j \<and> j \<le> m \<longrightarrow> lg_plog d start j \<le> s_max"
        have "count st \<le> m" using m(1) c2 by simp
        moreover have "\<forall>j. count st \<le> j \<and> j \<le> m \<longrightarrow> lg_plog d start j \<le> s_max"
        proof (intro allI impI)
          fix j assume "count st \<le> j \<and> j \<le> m"
          then show "lg_plog d start j \<le> s_max"
            using ns m(3) c2 by (cases "j = count st") auto
        qed
        ultimately have "k_minor st + length (filter (lg_acc d start) [count st..<m])
              < length (points_minor st)"
          using m(2) by (intro Suc.prems(2))
        moreover have "[count st..<m] = count st # [count st2..<m]"
          using m(1) c2 by (simp add: upt_conv_Cons)
        ultimately show "k_minor st2 + length (filter (lg_acc d start) [count st2..<m])
              < length (points_minor st2)"
          using nacc c2 by simp
      qed
      then show ?thesis by (simp only: step)
    qed
  qed
qed

lemma log10_hundredth: "log 10 (1 / 100 :: real) = - 2"
proof -
  have "(1 / 100 :: real) = 10 powr (- 2)" by (simp add: powr_minus_divide)
  then have "log 10 (1 / 100 :: real) = log 10 (10 powr (- 2))" by (rule arg_cong)
  also have "\<dots> = - 2" by (rule log_powr_cancel) simp_all
  finally show ?thesis .
qed

lemma log10_tenth: "log 10 (1 / 10 :: real) = - 1"
proof -
  have "(1 / 10 :: real) = 10 powr (- 1)" by (simp add: powr_minus_divide)
  then have "log 10 (1 / 10 :: real) = log 10 (10 powr (- 1))" by (rule arg_cong)
  also have "\<dots> = - 1" by (rule log_powr_cancel) simp_all
  finally show ?thesis .
qed

lemma log10_mono: "0 < x \<Longrightarrow> x \<le> y \<Longrightarrow> log 10 x \<le> log 10 (y::real)"
  by (rule log_mono) simp_all

lemma plog_nonzero:
  assumes d: "0 < d" and nz: "\<not> lg_zero d start n"
  shows "lg_plog d start n = log 10 (lg_diff d start n) + of_int \<lfloor>lg_pos d start n\<rfloor> + 1"
proof -
  let ?p = "lg_pos d start n"
  have dp: "0 < lg_diff d start n" using d nz lg_diff_range(1)[of d start n]
    by (simp add: lg_zero_def)
  then have "of_int \<lfloor>?p\<rfloor> < ?p" by (simp add: lg_diff_def)
  moreover have "?p \<le> of_int \<lfloor>?p\<rfloor> + 1" by linarith
  ultimately have ce: "\<lceil>?p\<rceil> = \<lfloor>?p\<rfloor> + 1" by (intro ceiling_unique) simp_all
  have e: "0 < exp10 (of_int \<lceil>?p\<rceil>)" by (simp add: exp10_def)
  have "lg_plog d start n = log 10 (lg_diff d start n * exp10 (of_int \<lceil>?p\<rceil>))"
    using nz by (simp add: lg_plog_def)
  also have "\<dots> = log 10 (lg_diff d start n) + log 10 (exp10 (of_int \<lceil>?p\<rceil>))"
    using dp e by (rule log_mult_pos)
  also have "log 10 (exp10 (of_int \<lceil>?p\<rceil>)) = of_int \<lceil>?p\<rceil>"
    unfolding exp10_def by (rule log_powr_cancel) simp_all
  finally show ?thesis by (simp add: ce)
qed

lemma zero_low:
  assumes "lg_zero d start n" "lg_plog d start n \<le> s_max"
  shows "\<lfloor>lg_pos d start n\<rfloor> \<le> \<lfloor>s_max\<rfloor>"
proof -
  have "of_int \<lfloor>lg_pos d start n\<rfloor> \<le> s_max" using assms by (simp add: lg_plog_def)
  then show ?thesis by (simp add: le_floor_iff)
qed

lemma wide_inside:
  assumes d: "0 < d" and nz: "\<not> lg_zero d start n" and w: "1 / 10 \<le> lg_diff d start n"
    and le: "lg_plog d start n \<le> s_max"
  shows "lg_pos d start n \<le> of_int \<lfloor>s_max\<rfloor> + 10 powr (s_max - of_int \<lfloor>s_max\<rfloor> - 1)"
proof -
  let ?p = "lg_pos d start n" and ?df = "lg_diff d start n"
  let ?low = "\<lfloor>?p\<rfloor>" and ?F = "\<lfloor>s_max\<rfloor>"
  have dpos: "0 < ?df" using w by simp
  have pl: "lg_plog d start n = log 10 ?df + of_int ?low + 1" by (rule plog_nonzero[OF d nz])
  have "log 10 (1 / 10) \<le> log 10 ?df" by (rule log10_mono) (use w in simp_all)
  then have lo: "- 1 \<le> log 10 ?df" by (simp only: log10_tenth)
  have "of_int ?low \<le> lg_plog d start n" using pl lo by simp
  then have "of_int ?low \<le> s_max" using le by simp
  then have lF: "?low \<le> ?F" by (simp add: le_floor_iff)
  have pw: "0 < 10 powr (s_max - of_int ?F - 1)" by simp
  have p_eq: "?p = of_int ?low + ?df" by (simp add: lg_diff_def)
  show ?thesis
  proof (cases "?low = ?F")
    case True
    have "log 10 ?df \<le> s_max - of_int ?F - 1" using le pl True by simp
    then have "10 powr (log 10 ?df) \<le> 10 powr (s_max - of_int ?F - 1)"
      by (rule powr_mono) simp
    moreover have "10 powr (log 10 ?df) = ?df" using dpos by (intro powr_log_cancel) simp_all
    ultimately have "?df \<le> 10 powr (s_max - of_int ?F - 1)" by simp
    then show ?thesis using p_eq True by simp
  next
    case False
    then have "?low + 1 \<le> ?F" using lF by simp
    then have "of_int ?low + (1::real) \<le> of_int ?F" by linarith
    moreover have "?df < 1" by (rule lg_diff_range)
    ultimately show ?thesis using p_eq pw by linarith
  qed
qed

lemma narrow_low:
  assumes d: "0 < d" and nz: "\<not> lg_zero d start n" and w: "lg_diff d start n < 1 / 10"
    and ge: "0.1 - 0.00001 * d \<le> lg_diff d start n"
    and le: "lg_plog d start n \<le> s_max"
  shows "\<lfloor>lg_pos d start n\<rfloor> \<le> \<lfloor>s_max\<rfloor> + 1"
proof -
  let ?p = "lg_pos d start n" and ?df = "lg_diff d start n"
  let ?low = "\<lfloor>?p\<rfloor>" and ?F = "\<lfloor>s_max\<rfloor>"
  have z: "0.001 * d \<le> ?df" using nz lg_diff_range(1)[of d start n] by (simp add: lg_zero_def)
  have hund: "1 / 100 \<le> ?df"
  proof (cases "d < 10")
    case True
    then show ?thesis using ge by simp
  next
    case False
    then show ?thesis using z by simp
  qed
  have pl: "lg_plog d start n = log 10 ?df + of_int ?low + 1" by (rule plog_nonzero[OF d nz])
  have "log 10 (1 / 100) \<le> log 10 ?df" by (rule log10_mono) (use hund in simp_all)
  then have "- 2 \<le> log 10 ?df" by (simp only: log10_hundredth)
  then have "of_int ?low - 1 \<le> s_max" using pl le by simp
  moreover have "s_max < of_int ?F + 1" by linarith
  ultimately have "of_int ?low < of_int ?F + (2::real)" by linarith
  then have "?low < ?F + 2" by linarith
  then show ?thesis by simp
qed

lemma loop_stops:
  assumes d: "0 < d"
  shows "\<exists>n. lg_plog d start n > s_max"
proof -
  define C where "C = max 1 (- log 10 (0.001 * d))"
  define n where "n = nat \<lceil>(s_max + C - start) / d\<rceil>"
  have "(s_max + C - start) / d \<le> real n" unfolding n_def by linarith
  then have "s_max + C - start \<le> d * real n" using d by (simp add: field_simps)
  then have big: "s_max + C \<le> lg_pos d start n" by (simp add: lg_pos_def)
  have "lg_pos d start n - C < lg_plog d start n"
  proof (cases "lg_zero d start n")
    case True
    then have "lg_plog d start n = of_int \<lfloor>lg_pos d start n\<rfloor>" by (simp add: lg_plog_def)
    moreover have "lg_pos d start n - 1 < of_int \<lfloor>lg_pos d start n\<rfloor>" by linarith
    moreover have "1 \<le> C" by (simp add: C_def)
    ultimately show ?thesis by linarith
  next
    case False
    have z: "0.001 * d \<le> lg_diff d start n"
      using False lg_diff_range(1)[of d start n] by (simp add: lg_zero_def)
    have "log 10 (0.001 * d) \<le> log 10 (lg_diff d start n)"
      by (rule log10_mono) (use d z in simp_all)
    moreover have "- C \<le> log 10 (0.001 * d)" by (simp add: C_def)
    moreover have "lg_pos d start n < of_int \<lfloor>lg_pos d start n\<rfloor> + 1" by linarith
    ultimately show ?thesis using plog_nonzero[OF d False] by linarith
  qed
  with big have "s_max < lg_plog d start n" by simp
  then show ?thesis ..
qed

lemma lg_zero_alt: "lg_zero d start n \<longleftrightarrow> lg_diff d start n < d / 1000"
  using lg_diff_range(1)[of d start n] by (simp add: lg_zero_def)

lemma lg_acc_alt:
  "lg_acc d start n \<longleftrightarrow> lg_zero d start n \<or> 1 / 10 - d / 100000 \<le> lg_diff d start n"
  by (simp add: lg_acc_def)

lemma lg_top_lower: "of_int \<lfloor>x\<rfloor> + 1 / 10 \<le> lg_top x"
proof -
  have "- 1 \<le> x - of_int \<lfloor>x\<rfloor> - 1" by linarith
  then have "(10::real) powr (- 1) \<le> 10 powr (x - of_int \<lfloor>x\<rfloor> - 1)"
    by (rule powr_mono) simp
  then show ?thesis by (simp add: lg_top_def powr_minus_divide)
qed

lemma lg_top_upper: "lg_top x < of_int \<lfloor>x\<rfloor> + 1"
proof -
  have "x - of_int \<lfloor>x\<rfloor> - 1 < 0" by linarith
  then have "(10::real) powr (x - of_int \<lfloor>x\<rfloor> - 1) < 10 powr 0"
    by (rule powr_less_mono) simp
  then show ?thesis by (simp add: lg_top_def)
qed

lemma extra_cases:
  assumes d: "0 < d" and g: "lg_good d start s_max n" and ex: "lg_top s_max < lg_pos d start n"
  shows "(of_int \<lfloor>s_max\<rfloor> + 1 / 10 < lg_pos d start n \<and>
            lg_pos d start n < of_int \<lfloor>s_max\<rfloor> + 1 \<and> 100 < d) \<or>
         (of_int \<lfloor>s_max\<rfloor> + 11 / 10 - d / 100000 \<le> lg_pos d start n \<and>
            lg_pos d start n < of_int \<lfloor>s_max\<rfloor> + 11 / 10 \<and> d < 100)"
proof -
  define p where "p = lg_pos d start n"
  define df where "df = lg_diff d start n"
  define low :: real where "low = of_int \<lfloor>p\<rfloor>"
  define F :: real where "F = of_int \<lfloor>s_max\<rfloor>"
  have acc: "lg_acc d start n" and le: "lg_plog d start n \<le> s_max"
    using g by (simp_all add: lg_good_def)
  have p_eq: "p = low + df" by (simp add: lg_diff_def p_def df_def low_def)
  have df1: "df < 1" unfolding df_def by (rule lg_diff_range)
  have lowF: "F + 1 / 10 < p" using ex lg_top_lower[of s_max] unfolding p_def F_def by linarith
  show ?thesis
  proof (cases "lg_zero d start n")
    case True
    have "\<lfloor>p\<rfloor> \<le> \<lfloor>s_max\<rfloor>" unfolding p_def by (rule zero_low[OF True le])
    then have lF: "low \<le> F" unfolding low_def F_def by linarith
    have up: "p < F + 1" using p_eq lF df1 by linarith
    have a: "1 / 10 < df" using lowF p_eq lF by linarith
    have b: "df < d / 1000" using True unfolding df_def by (simp only: lg_zero_alt)
    have "100 < d" using a b by linarith
    then show ?thesis using lowF up unfolding p_def F_def by blast
  next
    case False
    have narrow: "df < 1 / 10"
    proof (rule ccontr)
      assume "\<not> df < 1 / 10"
      then have "1 / 10 \<le> lg_diff d start n" unfolding df_def by simp
      from wide_inside[OF d False this le] have "lg_pos d start n \<le> lg_top s_max"
        by (simp only: lg_top_def)
      then show False using ex by simp
    qed
    have ge: "1 / 10 - d / 100000 \<le> df" using acc False unfolding df_def by (simp add: lg_acc_alt)
    have ge': "0.1 - 0.00001 * d \<le> lg_diff d start n" using ge unfolding df_def by simp
    have narrow': "lg_diff d start n < 1 / 10" using narrow unfolding df_def .
    have "\<lfloor>p\<rfloor> \<le> \<lfloor>s_max\<rfloor> + 1" unfolding p_def by (rule narrow_low[OF d False narrow' ge' le])
    then have l1: "low \<le> F + 1" unfolding low_def F_def by linarith
    have l2: "\<not> low \<le> F"
    proof
      assume "low \<le> F"
      then have "p < F + 1 / 10" using p_eq narrow by linarith
      then show False using lowF by simp
    qed
    have "\<lfloor>p\<rfloor> = \<lfloor>s_max\<rfloor> + 1"
    proof -
      have "\<lfloor>p\<rfloor> \<le> \<lfloor>s_max\<rfloor> + 1" using l1 unfolding low_def F_def by linarith
      moreover have "\<not> \<lfloor>p\<rfloor> \<le> \<lfloor>s_max\<rfloor>" using l2 unfolding low_def F_def by linarith
      ultimately show ?thesis by linarith
    qed
    then have low: "low = F + 1" unfolding low_def F_def by simp
    have z: "d / 1000 \<le> df" using False unfolding df_def by (simp add: lg_zero_alt)
    have "d < 100" using z narrow by linarith
    moreover have "F + 11 / 10 - d / 100000 \<le> p" using p_eq low ge by linarith
    moreover have "p < F + 11 / 10" using p_eq low narrow by linarith
    ultimately show ?thesis unfolding p_def F_def by blast
  qed
qed

lemma pos_close_eq:
  assumes d: "0 < d" and c: "\<bar>lg_pos d start i - lg_pos d start j\<bar> < d"
  shows "i = j"
proof -
  have "lg_pos d start i - lg_pos d start j = d * (real i - real j)"
    by (simp add: lg_pos_def algebra_simps)
  then have "\<bar>d * (real i - real j)\<bar> < d" using c by simp
  then have "d * \<bar>real i - real j\<bar> < d * 1" using d by (simp add: abs_mult)
  then have "\<bar>real i - real j\<bar> < 1" using d by (simp only: mult_less_cancel_left_pos)
  then show ?thesis by linarith
qed

lemma extras_equal:
  assumes d: "0 < d"
    and gi: "lg_good d start s_max i" "lg_top s_max < lg_pos d start i"
    and gj: "lg_good d start s_max j" "lg_top s_max < lg_pos d start j"
  shows "i = j"
proof (rule pos_close_eq[OF d])
  define F :: real where "F = of_int \<lfloor>s_max\<rfloor>"
  define p where "p = lg_pos d start i"
  define q where "q = lg_pos d start j"
  from extra_cases[OF d gi]
  have ci: "(F + 1 / 10 < p \<and> p < F + 1 \<and> 100 < d) \<or>
            (F + 11 / 10 - d / 100000 \<le> p \<and> p < F + 11 / 10 \<and> d < 100)"
    unfolding F_def p_def .
  from extra_cases[OF d gj]
  have cj: "(F + 1 / 10 < q \<and> q < F + 1 \<and> 100 < d) \<or>
            (F + 11 / 10 - d / 100000 \<le> q \<and> q < F + 11 / 10 \<and> d < 100)"
    unfolding F_def q_def .
  have "\<bar>p - q\<bar> < d"
  proof (cases "100 < d")
    case True
    with ci cj have "F + 1 / 10 < p" "p < F + 1" "F + 1 / 10 < q" "q < F + 1" by auto
    then show ?thesis using True by linarith
  next
    case False
    with ci cj have "F + 11 / 10 - d / 100000 \<le> p" "p < F + 11 / 10"
        "F + 11 / 10 - d / 100000 \<le> q" "q < F + 11 / 10" by auto
    then show ?thesis using d by linarith
  qed
  then show "\<bar>lg_pos d start i - lg_pos d start j\<bar> < d" unfolding p_def q_def .
qed

lemma inside_bound:
  assumes d: "0 < d" and ins: "lg_pos d start n \<le> tp" and st: "tp - start \<le> nd"
  shows "n \<le> nat \<lfloor>nd / d\<rfloor>"
proof -
  have "d * real n \<le> nd" using ins st by (simp add: lg_pos_def)
  then have "real n \<le> nd / d" using d by (simp add: field_simps)
  then have "int n \<le> \<lfloor>nd / d\<rfloor>" by (simp add: le_floor_iff)
  then show ?thesis by simp
qed

lemma accepted_count:
  assumes d: "0 < d" and st: "lg_top s_max - start \<le> nd" and nd: "0 \<le> nd"
    and acc: "lg_acc d start m"
    and run: "\<forall>j. j \<le> m \<longrightarrow> lg_plog d start j \<le> s_max"
  shows "length (filter (lg_acc d start) [0..<m]) < nat (\<lfloor>nd / d\<rfloor> + 2)"
proof -
  define M where "M = nat \<lfloor>nd / d\<rfloor>"
  define A where "A = {j. j \<le> m \<and> lg_acc d start j}"
  define X where "X = {j \<in> A. lg_top s_max < lg_pos d start j}"
  have good: "lg_good d start s_max j" if "j \<in> A" for j
    using that run by (simp add: A_def lg_good_def)
  have finA: "finite A" by (simp add: A_def)
  have sub: "A \<subseteq> {0..M} \<union> X"
  proof
    fix j assume j: "j \<in> A"
    show "j \<in> {0..M} \<union> X"
    proof (cases "lg_top s_max < lg_pos d start j")
      case True
      then show ?thesis using j by (simp add: X_def)
    next
      case False
      then have "lg_pos d start j \<le> lg_top s_max" by simp
      from inside_bound[OF d this st] show ?thesis by (simp add: M_def)
    qed
  qed
  have finX: "finite X" using finA by (simp add: X_def)
  have "\<forall>i\<in>X. \<forall>j\<in>X. i = j"
  proof (intro ballI)
    fix i j assume "i \<in> X" "j \<in> X"
    then have "lg_good d start s_max i" "lg_top s_max < lg_pos d start i"
        "lg_good d start s_max j" "lg_top s_max < lg_pos d start j"
      using good by (simp_all add: X_def)
    then show "i = j" by (rule extras_equal[OF d])
  qed
  then have cX: "card X \<le> 1" using finX by (simp add: card_le_Suc0_iff_eq)
  have "card A \<le> card ({0..M} \<union> X)" using sub finX by (intro card_mono) simp_all
  also have "\<dots> \<le> card {0..M} + card X" by (rule card_Un_le)
  also have "\<dots> \<le> M + 2" using cX by simp
  finally have cA: "card A \<le> M + 2" .
  have len: "length (filter (lg_acc d start) [0..<m]) = card {j. j < m \<and> lg_acc d start j}"
  proof -
    have "distinct (filter (lg_acc d start) [0..<m])" by simp
    then have "length (filter (lg_acc d start) [0..<m]) = card (set (filter (lg_acc d start) [0..<m]))"
      by (simp only: distinct_card)
    also have "set (filter (lg_acc d start) [0..<m]) = {j. j < m \<and> lg_acc d start j}" by auto
    finally show ?thesis .
  qed
  define B where "B = {j. j < m \<and> lg_acc d start j}"
  have AB: "A = insert m B" using acc by (auto simp: A_def B_def)
  have "m \<notin> B" "finite B" by (simp_all add: B_def)
  then have "card (insert m B) = Suc (card B)" by (rule card_insert_disjoint[rotated])
  then have "card A = Suc (card {j. j < m \<and> lg_acc d start j})" by (simp only: AB B_def)
  then have "length (filter (lg_acc d start) [0..<m]) < M + 2" using cA len by simp
  moreover have "0 \<le> \<lfloor>nd / d\<rfloor>" using nd d by simp
  ultimately show ?thesis by (simp add: M_def nat_add_distrib)
qed

lemma exp10_quot: "exp10 x / exp10 y = 10 powr (x - y)"
  by (simp add: exp10_def powr_diff)

lemma n_decades_eq:
  fixes s_min s_max :: real
  assumes le: "s_min \<le> s_max"
  defines "nd0 \<equiv> \<lfloor>s_max - s_min\<rfloor>"
  shows "(if \<lfloor>s_min + of_int nd0\<rfloor> \<noteq> \<lfloor>s_max\<rfloor>
          then of_int nd0 + (1 - (exp10 (s_min + of_int nd0 + 1) - exp10 s_max)
                                  / exp10 (of_int \<lfloor>s_max + 1\<rfloor>))
          else of_int nd0 + (exp10 s_max - exp10 (s_min + of_int nd0))
                              / exp10 (of_int \<lfloor>s_max + 1\<rfloor>))
         = lg_top s_max - lg_top s_min"
proof -
  define a where "a = \<lfloor>s_min\<rfloor>"
  define F where "F = \<lfloor>s_max\<rfloor>"
  have ra: "of_int a \<le> s_min" "s_min < of_int a + 1" unfolding a_def by linarith+
  have rF: "of_int F \<le> s_max" "s_max < of_int F + 1" unfolding F_def by linarith+
  have F1: "\<lfloor>s_max + 1\<rfloor> = F + 1" by (simp add: F_def)
  have tops: "lg_top s_max - lg_top s_min
      = of_int F - of_int a + 10 powr (s_max - of_int F - 1) - 10 powr (s_min - of_int a - 1)"
    by (simp add: lg_top_def a_def F_def)
  show ?thesis
  proof (cases "s_min - of_int a \<le> s_max - of_int F")
    case True
    have n: "nd0 = F - a" unfolding nd0_def
      by (rule floor_unique) (use True ra rF in simp_all)
    have fl: "\<lfloor>s_min + of_int nd0\<rfloor> = F" unfolding n
      by (rule floor_unique) (use True ra rF in simp_all)
    have "of_int nd0 + (exp10 s_max - exp10 (s_min + of_int nd0)) / exp10 (of_int \<lfloor>s_max + 1\<rfloor>)
        = of_int nd0 + (exp10 s_max / exp10 (of_int (F + 1))
                        - exp10 (s_min + of_int nd0) / exp10 (of_int (F + 1)))"
      by (simp only: F1 diff_divide_distrib)
    also have "\<dots> = of_int F - of_int a + 10 powr (s_max - of_int F - 1)
                      - 10 powr (s_min - of_int a - 1)"
      by (simp add: exp10_quot n algebra_simps)
    finally show ?thesis using fl by (simp only: tops F_def[symmetric]) simp
  next
    case False
    have n: "nd0 = F - a - 1" unfolding nd0_def
      by (rule floor_unique) (use False ra rF le in simp_all)
    have fl: "\<lfloor>s_min + of_int nd0\<rfloor> = F - 1" unfolding n
      by (rule floor_unique) (use False ra rF in simp_all)
    have "of_int nd0 + (1 - (exp10 (s_min + of_int nd0 + 1) - exp10 s_max)
                                  / exp10 (of_int \<lfloor>s_max + 1\<rfloor>))
        = of_int nd0 + (1 - (exp10 (s_min + of_int nd0 + 1) / exp10 (of_int (F + 1))
                        - exp10 s_max / exp10 (of_int (F + 1))))"
      by (simp only: F1 diff_divide_distrib)
    also have "\<dots> = of_int F - of_int a + 10 powr (s_max - of_int F - 1)
                      - 10 powr (s_min - of_int a - 1)"
      by (simp add: exp10_quot n algebra_simps)
    finally show ?thesis using fl by (simp only: tops F_def[symmetric]) simp
  qed
qed

lemma lg_top_mono:
  assumes "s_min \<le> s_max"
  shows "lg_top s_min \<le> lg_top s_max"
proof (cases "\<lfloor>s_min\<rfloor> = \<lfloor>s_max\<rfloor>")
  case True
  have "s_min - of_int \<lfloor>s_max\<rfloor> - 1 \<le> s_max - of_int \<lfloor>s_max\<rfloor> - 1" using assms by simp
  then have "(10::real) powr (s_min - of_int \<lfloor>s_max\<rfloor> - 1) \<le> 10 powr (s_max - of_int \<lfloor>s_max\<rfloor> - 1)"
    by (rule powr_mono) simp
  then show ?thesis by (simp add: lg_top_def True)
next
  case False
  have "\<lfloor>s_min\<rfloor> \<le> \<lfloor>s_max\<rfloor>" using assms by (rule floor_mono)
  with False have "\<lfloor>s_min\<rfloor> + 1 \<le> \<lfloor>s_max\<rfloor>" by simp
  then have "of_int \<lfloor>s_min\<rfloor> + (1::real) \<le> of_int \<lfloor>s_max\<rfloor>" by linarith
  moreover have "lg_top s_min < of_int \<lfloor>s_min\<rfloor> + 1" by (rule lg_top_upper)
  moreover have "of_int \<lfloor>s_max\<rfloor> + 1 / 10 \<le> lg_top s_max" by (rule lg_top_lower)
  ultimately show ?thesis by linarith
qed

lemma start_above:
  assumes d: "0 < d"
  shows "lg_top s_min \<le> of_int \<lceil>exp10 (s_min - of_int \<lfloor>s_min\<rfloor> - 1) / d\<rceil> * d + of_int \<lfloor>s_min\<rfloor>"
proof -
  define f0 where "f0 = exp10 (s_min - of_int \<lfloor>s_min\<rfloor> - 1)"
  have "f0 / d \<le> of_int \<lceil>f0 / d\<rceil>" by linarith
  then have "f0 / d * d \<le> of_int \<lceil>f0 / d\<rceil> * d" by (rule mult_right_mono) (use d in simp)
  then have "f0 \<le> of_int \<lceil>f0 / d\<rceil> * d" using d by simp
  then show ?thesis by (simp add: lg_top_def f0_def exp10_def)
qed

lemma log_ticks_minor0:
  assumes mj: "0 < major" and pos: "0 < s_min0" "s_min0 < s_max0"
  shows "\<exists>r. log_ticks major 0 s_min0 s_max0 = Some (Inr r)"
proof -
  define s_min where "s_min = log 10 s_min0"
  define s_max where "s_max = log 10 s_max0"
  have l1: "log10 s_min0 = Inr s_min" "log10 s_max0 = Inr s_max"
    using pos by (simp_all add: log10_def s_min_def s_max_def)
  have "s_min < s_max" unfolding s_min_def s_max_def
    using pos by (simp only: log_less_cancel_iff[of 10 s_min0 s_max0])
  then have le: "s_min \<le> s_max" by simp
  define nd where "nd = lg_top s_max - lg_top s_min"
  define start where
    "start = of_int \<lceil>exp10 (s_min - of_int \<lfloor>s_min\<rfloor> - 1) / major\<rceil> * major + of_int \<lfloor>s_min\<rfloor>"
  define st0 :: log_state where
    "st0 = \<lparr>points_major = zeros (\<lfloor>nd / major\<rfloor> + 2), points_minor = zeros (\<lfloor>nd / major\<rfloor> + 2),
            k_major = 0, k_minor = 0, count = 0, count_min = 0\<rparr>"
  have nd0: "0 \<le> nd" unfolding nd_def using lg_top_mono[OF le] by simp
  have st: "lg_top s_max - start \<le> nd"
    unfolding nd_def start_def using start_above[OF mj, of s_min] by simp
  from loop_stops[OF mj, of s_max start] obtain n where n: "lg_plog major start n > s_max" ..
  have run: "\<exists>st'. log_loop 0 major start (0.1 - 0.00001 * major) s_max st0 = Some (Inr st')"
  proof (rule log_loop_run[OF mj _ n])
    show "count st0 \<le> n" by (simp add: st0_def)
  next
    fix m assume m: "count st0 \<le> m" "lg_acc major start m"
      "\<forall>j. count st0 \<le> j \<and> j \<le> m \<longrightarrow> lg_plog major start j \<le> s_max"
    have c0: "count st0 = 0" "k_minor st0 = 0"
        "length (points_minor st0) = nat (\<lfloor>nd / major\<rfloor> + 2)"
      by (simp_all add: st0_def zeros_def)
    have "\<forall>j. j \<le> m \<longrightarrow> lg_plog major start j \<le> s_max" using m(3) c0 by simp
    from accepted_count[OF mj st nd0 m(2) this]
    show "k_minor st0 + length (filter (lg_acc major start) [count st0..<m])
            < length (points_minor st0)"
      by (simp only: c0 add_0)
  qed
  then obtain st' where st': "log_loop 0 major start (0.1 - 0.00001 * major) s_max st0 = Some (Inr st')" ..
  have ndc: "(if \<lfloor>s_min + of_int \<lfloor>s_max - s_min\<rfloor>\<rfloor> \<noteq> \<lfloor>s_max\<rfloor>
          then of_int \<lfloor>s_max - s_min\<rfloor> + (1 - (exp10 (s_min + of_int \<lfloor>s_max - s_min\<rfloor> + 1) - exp10 s_max)
                                  / exp10 (of_int \<lfloor>s_max + 1\<rfloor>))
          else of_int \<lfloor>s_max - s_min\<rfloor> + (exp10 s_max - exp10 (s_min + of_int \<lfloor>s_max - s_min\<rfloor>))
                              / exp10 (of_int \<lfloor>s_max + 1\<rfloor>)) = nd"
    unfolding nd_def by (rule n_decades_eq[OF le])
  have "log_ticks major 0 s_min0 s_max0 =
      (case log_loop 0 major start (0.1 - 0.00001 * major) s_max st0 of
         None \<Rightarrow> None | Some (Inl e) \<Rightarrow> Some (Inl e) | Some (Inr st) \<Rightarrow> Some (Inr (st, s_min, s_max)))"
    unfolding log_ticks_def l1 Let_def sum.case ndc
    by (simp add: start_def st0_def)
  then show ?thesis using st' by simp
qed

lemma num_ticks_degenerate:
  assumes "\<not> (lg \<and> a < b)" "\<not> (\<not> lg \<and> b \<noteq> a)"
  shows "num_ticks mj mn lg a b = Some (Inr ([], [], a, b))"
proof (cases lg)
  case True
  with assms(1) have "\<not> a < b" by simp
  then show ?thesis using True by (simp add: num_ticks_def)
next
  case False
  with assms(2) have "b = a" by simp
  then show ?thesis using False by (simp add: num_ticks_def)
qed

lemma num_minor0_returns:
  assumes "lg \<longrightarrow> 0 < a \<and> 0 < b"
  shows "\<exists>r. get_ticks (Num mj) (Num 0) lg a b = Some (Inr r)"
proof (cases "0 < mj")
  case False
  then show ?thesis by (simp add: get_ticks_def)
next
  case True
  show ?thesis
  proof (cases "lg \<and> a < b")
    case lgc: True
    then have "0 < a" "a < b" using assms by simp_all
    from log_ticks_minor0[OF True this] obtain st l_min l_max where
      "log_ticks mj 0 a b = Some (Inr (st, l_min, l_max))" by (metis prod_cases3)
    then show ?thesis using True lgc by (simp add: get_ticks_def num_ticks_def)
  next
    case nlg: False
    show ?thesis
    proof (cases "\<not> lg \<and> b \<noteq> a")
      case lin: True
      then have ne: "a \<noteq> b" and l: "\<not> lg" by auto
      from get_ticks_linear[OF True ne, where i = 0] show ?thesis using l by simp
    next
      case deg: False
      have "num_ticks mj 0 lg a b = Some (Inr ([], [], a, b))"
        by (rule num_ticks_degenerate[OF nlg deg])
      then show ?thesis using True by (simp add: get_ticks_def)
    qed
  qed
qed

lemma seq_numeric_minor_returns:
  assumes "lg \<longrightarrow> 0 < a \<and> 0 < b"
  shows "\<exists>r. get_ticks (Seq ps) (Num v) lg a b = Some (Inr (r, []))"
proof (cases lg)
  case False
  then show ?thesis by (simp add: get_ticks_seq seq_ticks_def sorted_py_def)
next
  case True
  with assms have ab: "0 < a" "0 < b" by simp_all
  have "\<forall>p\<in>set (filter (in_range a b) ps). 0 < p"
    using ab by (auto intro: in_range_pos)
  then have "log10_all (filter (in_range a b) ps) = Inr (map (log 10) (filter (in_range a b) ps))"
    by (rule log10_all_pos)
  then show ?thesis using True by (simp add: get_ticks_seq seq_ticks_def sorted_py_def)
qed

section \<open>The claims\<close>







text \<open>
  Claim C4, as it holds: for a degenerate linear range (\<open>min = max\<close>, numeric
  \<open>major > 0\<close>, \<open>log\<close> false) \<open>_get_ticks\<close> returns no tick at all: both outputs
  are empty, whatever \<open>minor\<close> is.
\<close>

theorem degenerate_linear_no_ticks:
  "0 < major \<Longrightarrow> get_ticks (Num major) minor False v v = Some (Inr ([], []))"
  by (cases minor) (simp_all add: get_ticks_def num_ticks_def sorted_py_def)

text \<open>The theorem at \<open>major = 2\<close>, \<open>minor = 3\<close>, \<open>min = max = 7\<close>.\<close>

theorem degenerate_linear_no_ticks_witness:
  "(0::real) < 2 \<and> get_ticks (Num 2) (Num 3) False 7 7 = Some (Inr ([], []))"
proof -
  have h: "(0::real) < 2" by simp
  show ?thesis using h degenerate_linear_no_ticks[OF h, of "Num 3" 7] by blast
qed

text \<open>
  Claim C4 as stated asks for one major tick at the value. At \<open>major = 1\<close>,
  \<open>minor = 0\<close>, \<open>min = max = 5\<close> the third sub-branch of the numeric branch runs:
  \<open>k = k2 = 1\<close> on two lists that are still empty, so the result is \<open>([], [])\<close>
  and not \<open>([5], [])\<close>.
\<close>

theorem degenerate_five_no_major:
  "get_ticks (Num 1) (Num 0) False 5 5 = Some (Inr ([], [])) \<and>
   get_ticks (Num 1) (Num 0) False 5 5 \<noteq> Some (Inr ([5], []))"
  by (simp add: get_ticks_def num_ticks_def sorted_py_def)

text \<open>
  Claim C3 asks for major ticks at the logarithms \<open>0, 1, 2\<close> for \<open>min = 1\<close>,
  \<open>max = 100\<close>, \<open>major = 1\<close>, \<open>minor = 1\<close>. The code starts at
  \<open>start_dec = ceil(0.1 / 1) * 1 = 1\<close> and returns the major ticks \<open>1, 2\<close> (the
  values \<open>10\<close> and \<open>100\<close>): there is no tick at the start of the range.
\<close>

theorem log_two_decades_majors:
  "get_ticks (Num 1) (Num 1) True 1 100 = Some (Inr ([1, 2], []))"
  apply (simp add: get_ticks_def num_ticks_def log_ticks_def log10_one log10_hundred zeros_def
      py_mod_def ceiling_tenth exp10_simps Let_def)
  apply (subst log_loop.simps)
  apply (simp add: assign_def py_mod_def eval_nat_numeral)
  apply (subst log_loop.simps)
  apply (simp add: assign_def py_mod_def eval_nat_numeral)
  apply (subst log_loop.simps)
  apply (simp add: assign_def py_mod_def eval_nat_numeral sorted_py_def)
  done

text \<open>
  Claim C6: in explicit-list mode \<open>_get_ticks\<close> returns whenever the axis is
  linear or both bounds of a logarithmic axis are positive; and whenever it
  returns, the ticks come from selected positions \<open>smaj\<close>, \<open>smin\<close> that are
  elements of the major and of the minor input list, lie between \<open>min\<close> and \<open>max\<close>
  in either direction, and have no position in common; on a linear axis the
  outputs are these positions, on a logarithmic axis their base-10 logarithms;
  no minor tick equals a major tick.
\<close>

theorem list_mode_ticks:
  fixes major :: "real list" and mn :: ticks
  defines "minor \<equiv> (case mn of Seq qs \<Rightarrow> qs | Num v \<Rightarrow> [])"
  shows "(\<not> lg \<or> (0 < a \<and> 0 < b) \<longrightarrow> (\<exists>r. get_ticks (Seq major) mn lg a b = Some (Inr r))) \<and>
         (\<forall>majs mins. get_ticks (Seq major) mn lg a b = Some (Inr (majs, mins)) \<longrightarrow>
            (\<exists>smaj smin.
               set smaj \<subseteq> set major \<and> set smin \<subseteq> set minor \<and>
               (\<forall>p\<in>set smaj \<union> set smin. (a \<le> p \<and> p \<le> b) \<or> (a \<ge> p \<and> p \<ge> b)) \<and>
               set smaj \<inter> set smin = {} \<and>
               (if lg then set majs = log 10 ` set smaj \<and> set mins = log 10 ` set smin \<and>
                           (\<forall>p\<in>set smaj \<union> set smin. 0 < p)
                else set majs = set smaj \<and> set mins = set smin) \<and>
               length majs = length smaj \<and> length mins = length smin \<and>
               set majs \<inter> set mins = {}))"
proof -
  define smaj where "smaj = filter (in_range a b) major"
  define smin where "smin = filter (\<lambda>p. in_range a b p \<and> p \<notin> set smaj) minor"
  have sel: "set smaj \<subseteq> set major" "set smin \<subseteq> set minor"
      "\<forall>p\<in>set smaj \<union> set smin. (a \<le> p \<and> p \<le> b) \<or> (a \<ge> p \<and> p \<ge> b)"
      "set smaj \<inter> set smin = {}"
    by (auto simp: smaj_def smin_def in_range_def)
  have st: "seq_ticks major minor lg a b =
      (if lg then (case log10_all smaj of Inl e \<Rightarrow> Inl e
                   | Inr lmaj \<Rightarrow> (case log10_all smin of Inl e \<Rightarrow> Inl e | Inr lmin \<Rightarrow> Inr (lmaj, lmin)))
       else Inr (smaj, smin))"
    unfolding seq_ticks_def Let_def smaj_def smin_def ..
  have gt: "get_ticks (Seq major) mn lg a b =
     (case seq_ticks major minor lg a b of
        Inl e \<Rightarrow> Some (Inl e)
      | Inr (pmaj, pmin) \<Rightarrow> Some (Inr (sorted_py pmaj (a > b), sorted_py pmin (a > b))))"
    unfolding minor_def by (rule get_ticks_seq)
  have res_lin: "get_ticks (Seq major) mn lg a b
        = Some (Inr (sorted_py smaj (a > b), sorted_py smin (a > b)))" if "\<not> lg"
    unfolding gt st using that by simp
  have res_log: "get_ticks (Seq major) mn lg a b
        = (case log10_all smaj of Inl e \<Rightarrow> Some (Inl e)
           | Inr lmaj \<Rightarrow> (case log10_all smin of Inl e \<Rightarrow> Some (Inl e)
               | Inr lmin \<Rightarrow> Some (Inr (sorted_py lmaj (a > b), sorted_py lmin (a > b)))))" if lg
    unfolding gt st using that by (simp split: sum.splits)
  have part1: "\<exists>r. get_ticks (Seq major) mn lg a b = Some (Inr r)" if "\<not> lg \<or> (0 < a \<and> 0 < b)"
  proof (cases lg)
    case False
    then show ?thesis using res_lin by blast
  next
    case True
    with that have ab: "0 < a" "0 < b" by simp_all
    have "\<forall>p\<in>set smaj. 0 < p" "\<forall>p\<in>set smin. 0 < p"
      using ab by (auto simp: smaj_def smin_def intro: in_range_pos)
    then have "log10_all smaj = Inr (map (log 10) smaj)" "log10_all smin = Inr (map (log 10) smin)"
      by (simp_all add: log10_all_pos)
    then show ?thesis using res_log[OF True] by simp
  qed
  have part2: "\<exists>smaj smin.
               set smaj \<subseteq> set major \<and> set smin \<subseteq> set minor \<and>
               (\<forall>p\<in>set smaj \<union> set smin. (a \<le> p \<and> p \<le> b) \<or> (a \<ge> p \<and> p \<ge> b)) \<and>
               set smaj \<inter> set smin = {} \<and>
               (if lg then set majs = log 10 ` set smaj \<and> set mins = log 10 ` set smin \<and>
                           (\<forall>p\<in>set smaj \<union> set smin. 0 < p)
                else set majs = set smaj \<and> set mins = set smin) \<and>
               length majs = length smaj \<and> length mins = length smin \<and>
               set majs \<inter> set mins = {}"
    if r: "get_ticks (Seq major) mn lg a b = Some (Inr (majs, mins))" for majs mins
  proof (cases lg)
    case False
    with r res_lin have "majs = sorted_py smaj (a > b)" "mins = sorted_py smin (a > b)"
      by simp_all
    then have "set majs = set smaj" "set mins = set smin"
        "length majs = length smaj" "length mins = length smin"
      by (simp_all add: set_sorted_py length_sorted_py)
    then show ?thesis using sel False by (intro exI[of _ smaj] exI[of _ smin]) simp
  next
    case True
    from r res_log[OF True] obtain lmaj lmin where l: "log10_all smaj = Inr lmaj"
        "log10_all smin = Inr lmin"
        "majs = sorted_py lmaj (a > b)" "mins = sorted_py lmin (a > b)"
      by (cases "log10_all smaj"; cases "log10_all smin") simp_all
    from log10_all_Inr[OF l(1)] log10_all_Inr[OF l(2)]
    have lm: "lmaj = map (log 10) smaj" "lmin = map (log 10) smin"
      and pos: "\<forall>p\<in>set smaj \<union> set smin. 0 < p" by auto
    have s1: "set majs = log 10 ` set smaj" "set mins = log 10 ` set smin"
      and s2: "length majs = length smaj" "length mins = length smin"
      using l(3,4) lm by (simp_all add: set_sorted_py length_sorted_py)
    have "set majs \<inter> set mins = {}"
      unfolding s1 using pos sel(4) by (rule log_image_disjoint)
    then show ?thesis using sel True s1 s2 pos
      by (intro exI[of _ smaj] exI[of _ smin]) simp
  qed
  show ?thesis using part1 part2 by blast
qed

text \<open>
  The theorem at the lists \<open>[0, 50, 200]\<close> and \<open>[25, 50]\<close> on the linear range
  from \<open>0\<close> to \<open>100\<close>: the minor position \<open>50\<close> is dropped as a major one.
\<close>

theorem list_mode_ticks_witness:
  "get_ticks (Seq [0, 50, 200]) (Seq [25, 50]) False 0 100 = Some (Inr ([0, 50], [25])) \<and>
   (\<exists>smaj smin.
       set smaj \<subseteq> set [0, 50, 200] \<and> set smin \<subseteq> set [25, 50] \<and>
       (\<forall>p\<in>set smaj \<union> set smin. (0 \<le> p \<and> p \<le> 100) \<or> (0 \<ge> p \<and> p \<ge> 100)) \<and>
       set smaj \<inter> set smin = {} \<and>
       (set [0, 50 :: real] = set smaj \<and> set [25 :: real] = set smin) \<and>
       length [0, 50 :: real] = length smaj \<and> length [25 :: real] = length smin \<and>
       set [0, 50 :: real] \<inter> set [25] = {})"
proof (rule conjI)
  show e: "get_ticks (Seq [0, 50, 200]) (Seq [25, 50]) False 0 100 = Some (Inr ([0, 50], [25]))"
    by (simp add: get_ticks_def seq_ticks_def in_range_def sorted_py_def)
  show "\<exists>smaj smin.
       set smaj \<subseteq> set [0, 50, 200] \<and> set smin \<subseteq> set [25, 50] \<and>
       (\<forall>p\<in>set smaj \<union> set smin. (0 \<le> p \<and> p \<le> 100) \<or> (0 \<ge> p \<and> p \<ge> 100)) \<and>
       set smaj \<inter> set smin = {} \<and>
       (set [0, 50 :: real] = set smaj \<and> set [25 :: real] = set smin) \<and>
       length [0, 50 :: real] = length smaj \<and> length [25 :: real] = length smin \<and>
       set [0, 50 :: real] \<inter> set [25] = {}"
    using list_mode_ticks[where lg = False and a = 0 and b = 100 and major = "[0, 50, 200]"
      and mn = "Seq [25, 50]", THEN conjunct2, rule_format, OF e]
    by (simp only: ticks.case if_False)
qed

text \<open>
  Claim C7 asks that neither direction of the transform divides by zero on a
  degenerate range. \<open>Plot.unproject\<close> sets \<open>ratiox = 0\<close> when \<open>xmax = xmin\<close> and
  then divides by it: with \<open>xmin = xmax = 5\<close> and the box \<open>(0, 0, 100, 100)\<close> the
  call \<open>unproject(50, 50)\<close> raises \<open>ZeroDivisionError\<close>.
\<close>

theorem unproject_degenerate_range:
  "unproject \<lparr>p_xlog = False, p_xmin = 5, p_xmax = 5, p_ylog = False, p_ymin = 0, p_ymax = 10,
              p_size = (0, 0, 100, 100)\<rparr> 50 50 = Inl ZeroDivisionError"
  by (simp add: unproject_def py_div_def)

text \<open>
  Claim C2, as it holds: let the plot area have a width and a height that are
  not zero, and let each axis be non-degenerate (its bounds transform, by
  \<open>log10\<close> on a logarithmic axis, to two different numbers; this includes that
  the bounds of a logarithmic axis are positive). Then for every data point
  \<open>(vx, vy)\<close> with \<open>vx\<close> between \<open>xmin\<close> and \<open>xmax\<close> and \<open>vy\<close> between \<open>ymin\<close> and
  \<open>ymax\<close>, the pixel that \<open>x_px\<close> and \<open>y_px\<close> compute from the parameters that
  \<open>_redraw_size\<close> hands to a plot is mapped back to \<open>(vx, vy)\<close> by \<open>to_data\<close>, on
  linear and on logarithmic axes, with no exception.
\<close>

theorem pixel_data_round_trip:
  fixes g :: graph and s0 s1 s2 s3 vx vy :: real
  assumes area: "s2 \<noteq> s0" "s3 \<noteq> s1"
    and xa: "funclog (g_xlog g) (g_xmin g) = Inr xlo" "funclog (g_xlog g) (g_xmax g) = Inr xhi"
            "xhi \<noteq> xlo"
    and ya: "funclog (g_ylog g) (g_ymin g) = Inr ylo" "funclog (g_ylog g) (g_ymax g) = Inr yhi"
            "yhi \<noteq> ylo"
    and vx: "in_range (g_xmin g) (g_xmax g) vx"
    and vy: "in_range (g_ymin g) (g_ymax g) vy"
  shows "\<exists>px py.
           call (x_px (plot_params g (s0, s1, s2, s3))) vx = Inr px \<and>
           call (y_px (plot_params g (s0, s1, s2, s3))) vy = Inr py \<and>
           to_data (set_plot_area g (s0, s1, s2, s3)) px py = Inr (vx, vy)"
proof -
  let ?p = "plot_params g (s0, s1, s2, s3)"
  let ?g = "set_plot_area g (s0, s1, s2, s3)"
  from funclog_in_range[OF xa(1,2) vx] obtain fvx where fvx: "funclog (g_xlog g) vx = Inr fvx" ..
  from funclog_in_range[OF ya(1,2) vy] obtain fvy where fvy: "funclog (g_ylog g) vy = Inr fvy" ..
  have fx: "funcx ?p v = funclog (g_xlog g) v" and fy: "funcy ?p v = funclog (g_ylog g) v" for v
    by (simp_all add: funcx_def funcy_def funclog_def plot_params_def)
  have sz: "p_size ?p = (s0, s1, s2, s3)" "p_xmin ?p = g_xmin g" "p_xmax ?p = g_xmax g"
      "p_ymin ?p = g_ymin g" "p_ymax ?p = g_ymax g"
    by (simp_all add: plot_params_def)
  from to_pixel_x[OF sz(1), of xlo xhi vx fvx] xa fvx obtain f1 where
    f1: "x_px ?p = Inr f1" "f1 vx = Inr ((fvx - xlo) * ((s2 - s0) / (xhi - xlo)) + s0)"
    by (auto simp: fx sz)
  from to_pixel_y[OF sz(1), of ylo yhi vy fvy] ya fvy obtain f2 where
    f2: "y_px ?p = Inr f2" "f2 vy = Inr ((fvy - ylo) * ((s3 - s1) / (yhi - ylo)) + s1)"
    by (auto simp: fy sz)
  have w: "s2 - s0 \<noteq> 0" "s3 - s1 \<noteq> 0" using area by simp_all
  have ga: "g_plot_area_pos ?g = (s0, s1)" "g_plot_area_size ?g = (s2 - s0, s3 - s1)"
      "g_xlog ?g = g_xlog g" "g_xmin ?g = g_xmin g" "g_xmax ?g = g_xmax g"
      "g_ylog ?g = g_ylog g" "g_ymin ?g = g_ymin g" "g_ymax ?g = g_ymax g"
    by (simp_all add: set_plot_area_def)
  have "to_data ?g ((fvx - xlo) * ((s2 - s0) / (xhi - xlo)) + s0)
                   ((fvy - ylo) * ((s3 - s1) / (yhi - ylo)) + s1) = Inr (vx, vy)"
  proof (rule to_data_conv)
    show "fst (g_plot_area_size ?g) \<noteq> 0" "snd (g_plot_area_size ?g) \<noteq> 0"
      using w by (simp_all add: ga)
    show "conv_axis (g_xlog ?g) (g_xmin ?g) (g_xmax ?g)
           (((fvx - xlo) * ((s2 - s0) / (xhi - xlo)) + s0 - fst (g_plot_area_pos ?g))
              / fst (g_plot_area_size ?g)) = Inr vx"
      using conv_axis_round_trip[OF xa(1,2,3) w(1) fvx, of s0] by (simp only: ga fst_conv)
    show "conv_axis (g_ylog ?g) (g_ymin ?g) (g_ymax ?g)
           (((fvy - ylo) * ((s3 - s1) / (yhi - ylo)) + s1 - snd (g_plot_area_pos ?g))
              / snd (g_plot_area_size ?g)) = Inr vy"
      using conv_axis_round_trip[OF ya(1,2,3) w(2) fvy, of s1] by (simp only: ga snd_conv)
  qed
  moreover have "call (x_px ?p) vx = Inr ((fvx - xlo) * ((s2 - s0) / (xhi - xlo)) + s0)"
    using f1 by (simp add: call_def)
  moreover have "call (y_px ?p) vy = Inr ((fvy - ylo) * ((s3 - s1) / (yhi - ylo)) + s1)"
    using f2 by (simp add: call_def)
  ultimately show ?thesis by blast
qed

text \<open>
  The theorem on the default axes (\<open>0\<close> to \<open>100\<close>, linear), the box
  \<open>(10, 20, 110, 220)\<close> and the data point \<open>(25, 50)\<close>.
\<close>

theorem pixel_data_round_trip_witness:
  "(110::real) \<noteq> 10 \<and> (220::real) \<noteq> 20 \<and>
   funclog (g_xlog default_graph) (g_xmin default_graph) = Inr 0 \<and>
   funclog (g_xlog default_graph) (g_xmax default_graph) = Inr 100 \<and> (100::real) \<noteq> 0 \<and>
   funclog (g_ylog default_graph) (g_ymin default_graph) = Inr 0 \<and>
   funclog (g_ylog default_graph) (g_ymax default_graph) = Inr 100 \<and>
   in_range (g_xmin default_graph) (g_xmax default_graph) 25 \<and>
   in_range (g_ymin default_graph) (g_ymax default_graph) 50 \<and>
   (\<exists>px py.
      call (x_px (plot_params default_graph (10, 20, 110, 220))) 25 = Inr px \<and>
      call (y_px (plot_params default_graph (10, 20, 110, 220))) 50 = Inr py \<and>
      to_data (set_plot_area default_graph (10, 20, 110, 220)) px py = Inr (25, 50))"
proof -
  have h1: "(110::real) \<noteq> 10" and h2: "(220::real) \<noteq> 20" and ne: "(100::real) \<noteq> 0"
    by simp_all
  have xa: "funclog (g_xlog default_graph) (g_xmin default_graph) = Inr 0"
      "funclog (g_xlog default_graph) (g_xmax default_graph) = Inr 100"
    and ya: "funclog (g_ylog default_graph) (g_ymin default_graph) = Inr 0"
      "funclog (g_ylog default_graph) (g_ymax default_graph) = Inr 100"
    by (simp_all add: funclog_def default_graph_def)
  have vx: "in_range (g_xmin default_graph) (g_xmax default_graph) 25"
    and vy: "in_range (g_ymin default_graph) (g_ymax default_graph) 50"
    by (simp_all add: in_range_def default_graph_def)
  show ?thesis
    using h1 h2 ne xa ya vx vy pixel_data_round_trip[OF h1 h2 xa ne ya ne vx vy]
    by blast
qed

text \<open>
  Claim C2 as stated only asks for a non-degenerate data range. With the box
  \<open>(0, 0, 0, 0)\<close>, the default of \<open>Plot.params\<close>, the plot area has no extent:
  \<open>x_px\<close> maps \<open>50\<close> to the pixel \<open>0\<close>, and \<open>to_data\<close> divides by the width \<open>0\<close>.
\<close>

theorem zero_extent_no_round_trip:
  "call (x_px (plot_params default_graph (0, 0, 0, 0))) 50 = Inr 0 \<and>
   to_data (set_plot_area default_graph (0, 0, 0, 0)) 0 0 = Inl ZeroDivisionError"
  by (simp add: call_def x_px_def funcx_def plot_params_def default_graph_def to_data_def
        set_plot_area_def py_div_def)

text \<open>The definitions that an evaluation of \<open>_update_labels\<close> unfolds.\<close>

lemmas layout_defs = update_labels_def place_titles_def y_tick_labels_def x_tick_labels_def
  finish_labels_def get_text_def item_py_def texture_update_def funclog_def py_div_def py_int_def
  l_top_def l_y_def l_x_def l_width_def l_height_def l_right_def blank_def Let_def

text \<open>
  Claim C9 asks that an overlap of any two consecutive y tick labels blanks
  them all. \<open>_update_labels\<close> compares only \<open>ylabels[0].top\<close> with
  \<open>ylabels[1].y\<close>. On \<open>overlap_graph\<close> the labels are placed at the heights
  \<open>-2\<close>, \<open>89\<close> and \<open>91\<close> and are 14 pixels high: the first two are apart, the
  second and the third overlap, no label is blanked and the left inset is
  reserved (the box starts at \<open>x = 24\<close>).
\<close>

theorem y_label_overlap_undetected:
  "\<exists>g' bx. update_labels char_cells (\<lambda>v. []) overlap_graph = Inr (g', bx) \<and>
      map l_text (g_y_grid_labels g') = [''0'', ''50'', ''51''] \<and>
      map l_pos (g_y_grid_labels g') = [(12, - 2), (5, 89), (5, 91)] \<and>
      map l_size (g_y_grid_labels g') = [(7, 14), (14, 14), (14, 14)] \<and>
      l_top (g_y_grid_labels g' ! 1) > l_y (g_y_grid_labels g' ! 2) \<and>
      bx = (24, 5, 200, 188)"
  by (simp add: layout_defs overlap_graph_def default_graph_def default_label_def char_cells_def
        upt_rec eval_nat_numeral)




text \<open>
  Claim C8: an invalid tick configuration raises nothing. A numeric \<open>major \<le> 0\<close>
  gives two empty outputs, whatever the other arguments are. When \<open>major\<close> is a
  list and \<open>minor\<close> a number the call is the call with the empty list for
  \<open>minor\<close>, and when \<open>major\<close> is a number and \<open>minor\<close> a list it is the call with
  \<open>minor = 0\<close>, so that only \<open>major\<close> decides the ticks. On every axis that
  satisfies the invariant of the range (the bounds of a logarithmic axis are
  positive) both calls return without an exception, the first with no minor
  ticks.
\<close>

theorem invalid_ticks_never_raise:
  "(mz \<le> 0 \<longrightarrow> get_ticks (Num mz) mn lg a b = Some (Inr ([], []))) \<and>
   get_ticks (Seq ps) (Num v) lg a b = get_ticks (Seq ps) (Seq []) lg a b \<and>
   get_ticks (Num mj) (Seq qs) lg a b = get_ticks (Num mj) (Num 0) lg a b \<and>
   ((lg \<longrightarrow> 0 < a \<and> 0 < b) \<longrightarrow>
      (\<exists>r. get_ticks (Seq ps) (Num v) lg a b = Some (Inr (r, []))) \<and>
      (\<exists>r. get_ticks (Num mj) (Seq qs) lg a b = Some (Inr r)))"
proof (intro conjI impI)
  assume "mz \<le> 0"
  then show "get_ticks (Num mz) mn lg a b = Some (Inr ([], []))"
    by (simp add: get_ticks_def sorted_py_def)
next
  show "get_ticks (Seq ps) (Num v) lg a b = get_ticks (Seq ps) (Seq []) lg a b"
    by (simp add: get_ticks_def)
next
  show e: "get_ticks (Num mj) (Seq qs) lg a b = get_ticks (Num mj) (Num 0) lg a b"
    by (simp add: get_ticks_def)
next
  assume "lg \<longrightarrow> 0 < a \<and> 0 < b"
  then show "\<exists>r. get_ticks (Seq ps) (Num v) lg a b = Some (Inr (r, []))"
    by (rule seq_numeric_minor_returns)
next
  assume h: "lg \<longrightarrow> 0 < a \<and> 0 < b"
  have "get_ticks (Num mj) (Seq qs) lg a b = get_ticks (Num mj) (Num 0) lg a b"
    by (simp add: get_ticks_def)
  then show "\<exists>r. get_ticks (Num mj) (Seq qs) lg a b = Some (Inr r)"
    using num_minor0_returns[OF h, of mj] by simp
qed

text \<open>
  The theorem on the logarithmic axis from \<open>1\<close> to \<open>100\<close>, with \<open>major = 0\<close>, with
  the list \<open>[10, 1000]\<close> against \<open>minor = 5\<close>, and with \<open>major = 1\<close> against the list
  \<open>[2, 3]\<close>.
\<close>

theorem invalid_ticks_never_raise_witness:
  "(0::real) \<le> 0 \<and> (0::real) < 1 \<and> (0::real) < 100 \<and>
   get_ticks (Num 0) (Num 5) True 1 100 = Some (Inr ([], [])) \<and>
   get_ticks (Seq [10, 1000]) (Num 5) True 1 100 = get_ticks (Seq [10, 1000]) (Seq []) True 1 100 \<and>
   get_ticks (Num 1) (Seq [2, 3]) True 1 100 = get_ticks (Num 1) (Num 0) True 1 100 \<and>
   (\<exists>r. get_ticks (Seq [10, 1000]) (Num 5) True 1 100 = Some (Inr (r, []))) \<and>
   (\<exists>r. get_ticks (Num 1) (Seq [2, 3]) True 1 100 = Some (Inr r))"
proof -
  have h1: "(0::real) \<le> 0" by simp
  have h2: "True \<longrightarrow> (0::real) < 1 \<and> (0::real) < 100" by simp
  note t = invalid_ticks_never_raise[where mz = 0 and mn = "Num 5" and lg = True and a = 1
      and b = 100 and ps = "[10, 1000]" and v = 5 and mj = 1 and qs = "[2, 3]"]
  have c1: "get_ticks (Num 0) (Num 5) True 1 100 = Some (Inr ([], []))"
    using t[THEN conjunct1] h1 by (rule mp)
  have c2: "get_ticks (Seq [10, 1000]) (Num 5) True 1 100
              = get_ticks (Seq [10, 1000]) (Seq []) True 1 100"
    by (rule t[THEN conjunct2, THEN conjunct1])
  have c3: "get_ticks (Num 1) (Seq [2, 3]) True 1 100 = get_ticks (Num 1) (Num 0) True 1 100"
    by (rule t[THEN conjunct2, THEN conjunct2, THEN conjunct1])
  have c4: "(\<exists>r. get_ticks (Seq [10, 1000]) (Num 5) True 1 100 = Some (Inr (r, []))) \<and>
            (\<exists>r. get_ticks (Num 1) (Seq [2, 3]) True 1 100 = Some (Inr r))"
    using t[THEN conjunct2, THEN conjunct2, THEN conjunct2] h2 by (rule mp)
  have h3: "(0::real) < 1" and h4: "(0::real) < 100" by simp_all
  show ?thesis
    by (intro conjI) (rule h1 h3 h4 c1 c2 c3 c4[THEN conjunct1] c4[THEN conjunct2])+
qed

end
